theory Spec2Isabelle
  imports Main
begin

section \<open>Python strings\<close>

text \<open>
  The program is \<^verbatim>\<open>src/build/generate_code.py\<close>. A Python \<^verbatim>\<open>str\<close> is a sequence of
  code points; the model is a \<^typ>\<open>string\<close> whose characters are the code points below 256,
  so that indices and lengths count what Python counts. The operations below are the
  \<^verbatim>\<open>str\<close> methods used by the program, with Python's conventions: \<^verbatim>\<open>find\<close> and
  \<^verbatim>\<open>rfind\<close> return \<open>-1\<close> when there is no occurrence, and a slice clips its bounds.
\<close>

definition is_space :: "char \<Rightarrow> bool" where
  \<comment> \<open>\<^verbatim>\<open>str.isspace\<close> on the code points below 256: TAB, LF, VT, FF, CR, FS, GS, RS, US,
      SPACE, NEL and NBSP.\<close>
  "is_space c = ((of_char c :: nat) \<in> {9, 10, 11, 12, 13, 28, 29, 30, 31, 32, 133, 160})"

definition strip :: "string \<Rightarrow> string" where
  \<comment> \<open>\<^verbatim>\<open>s.strip()\<close>: leading and trailing whitespace removed\<close>
  "strip s = rev (dropWhile is_space (rev (dropWhile is_space s)))"

fun startswith :: "string \<Rightarrow> string \<Rightarrow> bool" where
  "startswith s [] = True"
| "startswith [] (c # cs) = False"
| "startswith (x # xs) (c # cs) = (x = c \<and> startswith xs cs)"

fun finds :: "string \<Rightarrow> string \<Rightarrow> int" where
  \<comment> \<open>\<^verbatim>\<open>s.find(sub)\<close>: the lowest index where \<open>sub\<close> occurs, or \<open>-1\<close>\<close>
  "finds [] sub = (if sub = [] then 0 else -1)"
| "finds (x # xs) sub =
     (if startswith (x # xs) sub then 0
      else (let r = finds xs sub in if r < 0 then -1 else r + 1))"

fun rfinds :: "string \<Rightarrow> string \<Rightarrow> int" where
  \<comment> \<open>\<^verbatim>\<open>s.rfind(sub)\<close>: the highest index where \<open>sub\<close> occurs, or \<open>-1\<close>\<close>
  "rfinds [] sub = (if sub = [] then 0 else -1)"
| "rfinds (x # xs) sub =
     (let r = rfinds xs sub in
      if 0 \<le> r then r + 1 else if startswith (x # xs) sub then 0 else -1)"

definition py_index :: "string \<Rightarrow> int \<Rightarrow> nat" where
  \<comment> \<open>how a slice bound or a start position is read: a negative one counts from the end,
      and the result is clipped to \<open>0 .. len(s)\<close>\<close>
  "py_index s i =
     (let n = int (length s); j = (if i < 0 then i + n else i)
      in if j < 0 then 0 else if n < j then length s else nat j)"

definition py_slice :: "string \<Rightarrow> int \<Rightarrow> int \<Rightarrow> string" where
  \<comment> \<open>\<^verbatim>\<open>s[a:b]\<close>\<close>
  "py_slice s a b = drop (py_index s a) (take (py_index s b) s)"

definition find_from :: "string \<Rightarrow> string \<Rightarrow> int \<Rightarrow> int" where
  \<comment> \<open>\<^verbatim>\<open>s.find(sub, start)\<close>: nothing is found from a start beyond the end\<close>
  "find_from s sub start =
     (if int (length s) < start then -1
      else (let k = py_index s start; r = finds (drop k s) sub
            in if r < 0 then -1 else r + int k))"

definition contains :: "string \<Rightarrow> string \<Rightarrow> bool" where
  \<comment> \<open>\<^verbatim>\<open>sub in s\<close>\<close>
  "contains s sub = (finds s sub \<noteq> -1)"

section \<open>CodeExtractor: \<^verbatim>\<open>extract_code\<close>\<close>

definition fence :: string where
  "fence = ''```''"

definition newline :: string where
  "newline = [CHR 0x0A]"

definition extract_code :: "string \<Rightarrow> string" where
  "extract_code llm_response =
     (if contains llm_response fence then
        (let start0 = finds llm_response fence + 3;
             start = (if strip (py_slice llm_response start0 (start0 + 10)) \<noteq> []
                         \<and> contains (py_slice llm_response start0 (start0 + 20)) newline
                      then find_from llm_response newline start0 + 1
                      else start0);
             end = rfinds llm_response fence
         in strip (py_slice llm_response start end))
      else strip llm_response)"

section \<open>The program's surroundings\<close>

text \<open>
  The rest of \<^verbatim>\<open>generate_code.py\<close> reads prompt files, posts requests to the hosted
  model, writes files and prints. What the program can only read is an \<open>env\<close>: the process
  environment (after \<^verbatim>\<open>load_dotenv\<close>), the hosted model behind \<^verbatim>\<open>requests.post\<close>, the clock
  and the operating system's refusals and failures. What it changes is a \<open>world\<close>: the files, the
  requests posted so far, and the two output streams.
\<close>

type_synonym path = string

datatype error =
    FileNotFoundError path  \<comment> \<open>\<^verbatim>\<open>open(path, 'r')\<close> of an absent file, \<^verbatim>\<open>makedirs('')\<close>\<close>
  | OSError string          \<comment> \<open>a directory or a file that cannot be created or opened for writing\<close>
  | ValueError string       \<comment> \<open>raised by \<^verbatim>\<open>call_llm_api\<close> itself\<close>
  | RequestError string     \<comment> \<open>any exception of \<^verbatim>\<open>requests.post\<close>, \<^verbatim>\<open>raise_for_status\<close> or
                                \<^verbatim>\<open>json\<close>\<close>
  | ContentError string     \<comment> \<open>any exception of the lookup
                                \<^verbatim>\<open>result["choices"][0]["message"]["content"]\<close>, which comes after
                                the elapsed time is printed\<close>
  | WriteError string       \<comment> \<open>any exception of \<^verbatim>\<open>write\<close>, or of closing the file, once the
                                file is open\<close>

fun error_str :: "error \<Rightarrow> string" where
  \<comment> \<open>\<^verbatim>\<open>str(e)\<close>\<close>
  "error_str (FileNotFoundError p) =
     ''[Errno 2] No such file or directory: '' @ [CHR 0x27] @ p @ [CHR 0x27]"
| "error_str (OSError m) = m"
| "error_str (ValueError m) = m"
| "error_str (RequestError m) = m"
| "error_str (ContentError m) = m"
| "error_str (WriteError m) = m"

fun after_answer :: "error \<Rightarrow> bool" where
  \<comment> \<open>the exceptions of \<^verbatim>\<open>call_llm_api\<close> raised after the line that reports the elapsed time\<close>
  "after_answer (ContentError m) = True"
| "after_answer _ = False"

record request =
  req_url :: string            \<comment> \<open>the endpoint posted to\<close>
  req_authorization :: string  \<comment> \<open>the \<^verbatim>\<open>Authorization\<close> header\<close>
  req_model :: string
  req_system :: string         \<comment> \<open>content of the message of role \<^verbatim>\<open>system\<close>\<close>
  req_user :: string           \<comment> \<open>content of the message of role \<^verbatim>\<open>user\<close>\<close>
  req_temperature :: string    \<comment> \<open>the JSON number, as written\<close>
  req_max_tokens :: nat

record env =
  environ :: "string \<rightharpoonup> string"
  post :: "request list \<Rightarrow> request \<Rightarrow> error + string"
    \<comment> \<open>the content of the model's answer to a request, given the requests before it,
        or the exception raised\<close>
  seconds :: "nat \<Rightarrow> string"
    \<comment> \<open>the elapsed time of the \<open>n\<close>-th call, as \<^verbatim>\<open>{elapsed_time:.2f}\<close> prints it\<close>
  refuse :: "path \<rightharpoonup> string"
    \<comment> \<open>the message of the \<^verbatim>\<open>OSError\<close> met when creating this directory or opening this
        file for writing, if any\<close>
  torn :: "path \<Rightarrow> string \<Rightarrow> (nat \<times> string) option"
    \<comment> \<open>whether writing this text to this file, once it is open, fails: the number of
        characters that reach the file before the failure, and the message of the
        exception\<close>

record world =
  files :: "path \<rightharpoonup> string"
  calls :: "request list"
  stdout :: "string list"   \<comment> \<open>one entry for each \<^verbatim>\<open>print\<close>\<close>
  stderr :: "string list"

record args =
  arg_model :: "string option"
  arg_api_key :: "string option"
  arg_endpoint :: "string option"

datatype stage = HTML | Script | Style | Tests | Auxiliary

definition print :: "string \<Rightarrow> world \<Rightarrow> world" where
  "print s w = w\<lparr>stdout := stdout w @ [s]\<rparr>"

fun show_nat :: "nat \<Rightarrow> string" where
  \<comment> \<open>\<^verbatim>\<open>str(n)\<close> for a natural number\<close>
  "show_nat n =
     (if n < 10 then [''0123456789'' ! n]
      else show_nat (n div 10) @ [''0123456789'' ! (n mod 10)])"

definition or_default :: "string option \<Rightarrow> string \<Rightarrow> string" where
  \<comment> \<open>\<^verbatim>\<open>x or d\<close> for \<open>x\<close> a string or \<^verbatim>\<open>None\<close>: the empty string is false too\<close>
  "or_default x d = (case x of None \<Rightarrow> d | Some s \<Rightarrow> if s = [] then d else s)"

definition falsy :: "string option \<Rightarrow> bool" where
  \<comment> \<open>\<^verbatim>\<open>not x\<close>\<close>
  "falsy x = (case x of None \<Rightarrow> True | Some s \<Rightarrow> s = [])"

definition joinpath :: "path \<Rightarrow> string \<Rightarrow> path" where
  \<comment> \<open>\<^verbatim>\<open>Path(d) / name\<close> for a relative \<open>name\<close>, as \<^verbatim>\<open>str\<close> shows it\<close>
  "joinpath d name = d @ ''/'' @ name"

definition dirname :: "path \<Rightarrow> path" where
  \<comment> \<open>\<^verbatim>\<open>os.path.dirname\<close>: up to the last slash, without trailing slashes unless it is
      all slashes\<close>
  "dirname p =
     (let head = rev (dropWhile (\<lambda>c. c \<noteq> CHR ''/'') (rev p))
      in if head \<noteq> [] \<and> \<not> (\<forall>c \<in> set head. c = CHR ''/'')
         then rev (dropWhile (\<lambda>c. c = CHR ''/'') (rev head)) else head)"

definition makedirs :: "env \<Rightarrow> path \<Rightarrow> error + unit" where
  \<comment> \<open>\<^verbatim>\<open>os.makedirs(d, exist_ok=True)\<close>; directories are not part of \<open>files\<close>\<close>
  "makedirs E d =
     (if d = [] then Inl (FileNotFoundError d)
      else case refuse E d of Some m \<Rightarrow> Inl (OSError m) | None \<Rightarrow> Inr ())"

definition thn ::
  "('e + 'a) \<times> world \<Rightarrow> ('a \<Rightarrow> world \<Rightarrow> ('e + 'b) \<times> world) \<Rightarrow> ('e + 'b) \<times> world" where
  \<comment> \<open>statement after statement: an exception skips what follows\<close>
  "thn m f = (case m of (Inl e, w) \<Rightarrow> (Inl e, w) | (Inr x, w) \<Rightarrow> f x w)"

definition at :: "stage \<Rightarrow> (error + 'a) \<times> world \<Rightarrow> ((stage \<times> error) + 'a) \<times> world" where
  \<comment> \<open>an exception is propagated with the numbered step of \<^verbatim>\<open>main\<close> that raised it; the
      program does not record the step, the label serves to state which stage failed\<close>
  "at k m = (case m of (Inl e, w) \<Rightarrow> (Inl (k, e), w) | (Inr x, w) \<Rightarrow> (Inr x, w))"

section \<open>Configuration\<close>

definition DEFAULT_MODEL :: "env \<Rightarrow> string" where
  "DEFAULT_MODEL E = (case environ E ''LLM_MODEL'' of None \<Rightarrow> ''gpt-4-turbo'' | Some m \<Rightarrow> m)"

definition DEFAULT_API_ENDPOINT :: "env \<Rightarrow> string" where
  "DEFAULT_API_ENDPOINT E =
     (case environ E ''LLM_API_ENDPOINT'' of
        None \<Rightarrow> ''https://api.openai.com/v1/chat/completions'' | Some u \<Rightarrow> u)"

definition PROMPT_DIR :: path where
  "PROMPT_DIR = ''prompts''"

definition OUTPUT_DIR :: path where
  "OUTPUT_DIR = ''generated''"

section \<open>PromptStore and CompletionClient\<close>

definition read_prompt_file :: "path \<Rightarrow> world \<Rightarrow> error + string" where
  "read_prompt_file prompt_path w =
     (case files w prompt_path of
        None \<Rightarrow> Inl (FileNotFoundError prompt_path)
      | Some text \<Rightarrow> Inr (strip text))"

definition default_system_message :: string where
  \<comment> \<open>the default of the parameter \<^verbatim>\<open>system_message\<close>\<close>
  "default_system_message = ''You are a code generator for a calculator application.''"

definition call_llm_api ::
  "env \<Rightarrow> string \<Rightarrow> string \<Rightarrow> string option \<Rightarrow> string option \<Rightarrow> string option
    \<Rightarrow> world \<Rightarrow> (error + string) \<times> world" where
  "call_llm_api E prompt system_message model api_key endpoint w =
     (let model = or_default model (DEFAULT_MODEL E);
          endpoint = or_default endpoint (DEFAULT_API_ENDPOINT E);
          api_key = (if falsy api_key then environ E ''LLM_API_KEY'' else api_key)
      in if falsy api_key
         then (Inl (ValueError (''API key not provided. Set the LLM_API_KEY in your .env file''
                                  @ '' or pass it as an argument.'')), w)
         else
           (let data = \<lparr>req_url = endpoint,
                        req_authorization = ''Bearer '' @ the api_key,
                        req_model = model,
                        req_system = system_message,
                        req_user = prompt,
                        req_temperature = ''0.2'',
                        req_max_tokens = 4000\<rparr>;
                w1 = print (''  Calling LLM API with model: '' @ model @ ''...'') w;
                w2 = w1\<lparr>calls := calls w1 @ [data]\<rparr>;
                completed = ''  API call completed in '' @ seconds E (length (calls w))
                              @ '' seconds''
            in case post E (calls w) data of
                 Inl e \<Rightarrow>
                   (Inl e,
                    print (''Error calling LLM API: '' @ error_str e)
                      (if after_answer e then print completed w2 else w2))
               | Inr content \<Rightarrow> (Inr content, print completed w2)))"

section \<open>The four generators\<close>

definition html_instruction :: string where
  \<comment> \<open>\<^verbatim>\<open>system_prompt\<close> of \<^verbatim>\<open>generate_html\<close>\<close>
  "html_instruction = ''Generate only the HTML code for a calculator. Respond with ONLY the complete HTML file, no explanations or markdown.''"

definition javascript_instruction :: string where
  \<comment> \<open>\<^verbatim>\<open>system_prompt\<close> of \<^verbatim>\<open>generate_javascript\<close>\<close>
  "javascript_instruction = ''Generate only the JavaScript code for a calculator. Respond with ONLY the complete JavaScript file, no explanations or markdown.''"

definition css_instruction :: string where
  \<comment> \<open>\<^verbatim>\<open>system_prompt\<close> of \<^verbatim>\<open>generate_css\<close>\<close>
  "css_instruction = ''Generate only the CSS code for a calculator. Respond with ONLY the complete CSS file, no explanations or markdown.''"

definition tests_instruction :: string where
  \<comment> \<open>\<^verbatim>\<open>system_prompt\<close> of \<^verbatim>\<open>generate_tests\<close>\<close>
  "tests_instruction = ''Generate only JavaScript test code for a calculator. Respond with ONLY the complete test file, no explanations or markdown.''"

definition javascript_request_context :: "string \<Rightarrow> string" where
  \<comment> \<open>\<^verbatim>\<open>context\<close> of \<^verbatim>\<open>generate_javascript\<close>\<close>
  "javascript_request_context html_context =
     ''\<newline>I'll provide you with the HTML structure of a calculator application followed by requirements\<newline>''
     @ ''for implementing its JavaScript business logic. Make sure your JavaScript code properly \<newline>''
     @ ''interacts with the HTML elements by using the correct IDs and classes.\<newline>''
     @ ''\<newline>''
     @ ''Here's the HTML structure:\<newline>''
     @ ''```html\<newline>''
     @ html_context
     @ ''\<newline>```\<newline>''
     @ ''\<newline>''
     @ ''Now, here are the requirements for the JavaScript business logic:\<newline>''"

definition css_request_context :: "string \<Rightarrow> string \<Rightarrow> string" where
  \<comment> \<open>\<^verbatim>\<open>context\<close> of \<^verbatim>\<open>generate_css\<close>\<close>
  "css_request_context html_context js_context =
     ''\<newline>I'll provide you with the HTML and JavaScript code for a calculator application followed by\<newline>''
     @ ''requirements for implementing its CSS styling. Make sure your CSS properly styles\<newline>''
     @ ''the HTML elements by using the correct IDs, classes, and elements.\<newline>''
     @ ''\<newline>''
     @ ''Here's the HTML structure:\<newline>''
     @ ''```html\<newline>''
     @ html_context
     @ ''\<newline>```\<newline>''
     @ ''\<newline>''
     @ ''Here's the JavaScript code:\<newline>''
     @ ''```javascript\<newline>''
     @ js_context
     @ ''\<newline>```\<newline>''
     @ ''\<newline>''
     @ ''Now, here are the requirements for the CSS styling:\<newline>''"

definition tests_request_context :: "string \<Rightarrow> string \<Rightarrow> string \<Rightarrow> string" where
  \<comment> \<open>\<^verbatim>\<open>context\<close> of \<^verbatim>\<open>generate_tests\<close>\<close>
  "tests_request_context html_context js_context css_context =
     ''\<newline>I'll provide you with the complete implementation of a calculator application (HTML, JavaScript, and CSS)\<newline>''
     @ ''followed by requirements for implementing tests. Make sure your tests properly validate\<newline>''
     @ ''the calculator's functionality by checking all specified requirements.\<newline>''
     @ ''\<newline>''
     @ ''Here's the HTML structure:\<newline>''
     @ ''```html\<newline>''
     @ html_context
     @ ''\<newline>```\<newline>''
     @ ''\<newline>''
     @ ''Here's the JavaScript code:\<newline>''
     @ ''```javascript\<newline>''
     @ js_context
     @ ''\<newline>```\<newline>''
     @ ''\<newline>''
     @ ''Here's the CSS code:\<newline>''
     @ ''```css\<newline>''
     @ css_context
     @ ''\<newline>```\<newline>''
     @ ''\<newline>''
     @ ''Now, here are the requirements for the tests:\<newline>''"

definition generate_html :: "env \<Rightarrow> string \<Rightarrow> world \<Rightarrow> (error + string) \<times> world" where
  "generate_html E prompt w =
     (let w1 = print ''  Generating standalone HTML without prior context...'' w;
          system_prompt = html_instruction;
          full_prompt = system_prompt @ ''\<newline>\<newline>'' @ prompt
      in call_llm_api E full_prompt default_system_message None None None w1)"

definition generate_javascript ::
  "env \<Rightarrow> string \<Rightarrow> string \<Rightarrow> world \<Rightarrow> (error + string) \<times> world" where
  "generate_javascript E prompt html_context w =
     (let w1 = print ''  Generating JavaScript with HTML context...'' w;
          system_prompt = javascript_instruction;
          context = javascript_request_context html_context;
          full_prompt = context @ ''\<newline>'' @ prompt
      in call_llm_api E full_prompt system_prompt None None None w1)"

definition generate_css ::
  "env \<Rightarrow> string \<Rightarrow> string \<Rightarrow> string \<Rightarrow> world \<Rightarrow> (error + string) \<times> world" where
  "generate_css E prompt html_context js_context w =
     (let w1 = print ''  Generating CSS with HTML and JavaScript context...'' w;
          system_prompt = css_instruction;
          context = css_request_context html_context js_context;
          full_prompt = context @ ''\<newline>'' @ prompt
      in call_llm_api E full_prompt system_prompt None None None w1)"

definition generate_tests ::
  "env \<Rightarrow> string \<Rightarrow> string \<Rightarrow> string \<Rightarrow> string \<Rightarrow> world \<Rightarrow> (error + string) \<times> world" where
  "generate_tests E prompt html_context js_context css_context w =
     (let w1 = print ''  Generating tests with full application context...'' w;
          system_prompt = tests_instruction;
          context = tests_request_context html_context js_context css_context;
          full_prompt = context @ ''\<newline>'' @ prompt
      in call_llm_api E full_prompt system_prompt None None None w1)"

section \<open>Persisting\<close>

definition write_text :: "env \<Rightarrow> path \<Rightarrow> string \<Rightarrow> world \<Rightarrow> (error + unit) \<times> world" where
  \<comment> \<open>\<^verbatim>\<open>with open(path, 'w') as f: f.write(content)\<close>. Opening creates the file, or empties
      the one that exists, before anything is written; a write that fails leaves in the
      file what reached it, possibly nothing.\<close>
  "write_text E file_path content w =
     (case refuse E file_path of
        Some m \<Rightarrow> (Inl (OSError m), w)
      | None \<Rightarrow>
          (let w1 = w\<lparr>files := (files w)(file_path \<mapsto> [])\<rparr>
           in case torn E file_path content of
                Some (n, m) \<Rightarrow>
                  (Inl (WriteError m), w1\<lparr>files := (files w1)(file_path \<mapsto> take n content)\<rparr>)
              | None \<Rightarrow> (Inr (), w1\<lparr>files := (files w1)(file_path \<mapsto> content)\<rparr>)))"

definition save_file :: "env \<Rightarrow> string \<Rightarrow> path \<Rightarrow> world \<Rightarrow> (error + unit) \<times> world" where
  "save_file E content output_path w =
     (case makedirs E (dirname output_path) of
        Inl e \<Rightarrow> (Inl e, w)
      | Inr _ \<Rightarrow>
          thn (write_text E output_path content w)
            (\<lambda>_ w1. (Inr (),
               print (''  Saved: '' @ output_path @ '' ('' @ show_nat (length content)
                        @ '' bytes)'') w1)))"

definition config_files :: "(string \<times> string) list" where
  \<comment> \<open>name and prompt of each auxiliary file, in the order of the source\<close>
  "config_files =
     [(''babel.config.js'',
       ''Generate a babel configuration file for a JavaScript project using Jest for testing.''),
      (''jest.config.js'',
       ''Generate a Jest configuration file for testing a vanilla JavaScript project.''),
      (''package.json'',
       ''Generate a package.json file with all necessary dependencies for a JavaScript project using Jest for testing.'')]"

definition config_system_message :: string where
  "config_system_message = ''You are a helpful assistant that generates configuration files.''"

fun config_loop :: "env \<Rightarrow> (string \<times> string) list \<Rightarrow> world \<Rightarrow> (error + unit) \<times> world" where
  \<comment> \<open>\<^verbatim>\<open>for config in config_files\<close>: no exception is caught inside the loop\<close>
  "config_loop E [] w = (Inr (), w)"
| "config_loop E (config # rest) w =
     (let api_key = environ E ''LLM_API_KEY'';
          system_message = config_system_message
      in case call_llm_api E (snd config) system_message (Some (DEFAULT_MODEL E)) api_key None w of
           (Inl e, w1) \<Rightarrow> (Inl e, w1)
         | (Inr response_content, w1) \<Rightarrow>
             (case write_text E (fst config) response_content w1 of
                (Inl e, w2) \<Rightarrow> (Inl e, w2)
              | (Inr _, w2) \<Rightarrow> config_loop E rest w2))"

definition generate_config_files :: "env \<Rightarrow> world \<Rightarrow> (error + unit) \<times> world" where
  "generate_config_files E w = config_loop E config_files w"

section \<open>GenerationPipeline: \<^verbatim>\<open>main\<close>\<close>

definition ui_prompt_path :: path where
  "ui_prompt_path = joinpath PROMPT_DIR ''calculator-ui.prompt''"

definition logic_prompt_path :: path where
  "logic_prompt_path = joinpath PROMPT_DIR ''business-logic.prompt''"

definition style_prompt_path :: path where
  "style_prompt_path = joinpath PROMPT_DIR ''styling.prompt''"

definition test_prompt_path :: path where
  "test_prompt_path = joinpath PROMPT_DIR ''tests.prompt''"

definition html_path :: path where
  "html_path = joinpath OUTPUT_DIR ''index.html''"

definition js_path :: path where
  "js_path = joinpath OUTPUT_DIR ''app.js''"

definition css_path :: path where
  "css_path = joinpath OUTPUT_DIR ''style.css''"

definition test_path :: path where
  "test_path = joinpath OUTPUT_DIR ''tests/calculator.test.js''"

definition banner :: "env \<Rightarrow> world \<Rightarrow> world" where
  \<comment> \<open>the five prints that open the \<^verbatim>\<open>try\<close> block\<close>
  "banner E w =
     print (''Output directory: '' @ OUTPUT_DIR)
       (print (''Using LLM model: '' @ DEFAULT_MODEL E)
         (print (replicate 80 (CHR ''='') @ ''\<newline>'')
           (print '' LLM-BUILT CALCULATOR - SEQUENTIAL CODE GENERATION''
             (print (''\<newline>'' @ replicate 80 (CHR ''='')) w))))"

definition step_html :: "env \<Rightarrow> world \<Rightarrow> (error + string) \<times> world" where
  \<comment> \<open>Step 1: Generate HTML from UI prompt\<close>
  "step_html E w =
     (let w1 = print ''\<newline>[STEP 1/4] Generating HTML from UI prompt'' w
      in case read_prompt_file ui_prompt_path w1 of
           Inl e \<Rightarrow> (Inl e, w1)
         | Inr ui_prompt \<Rightarrow>
             thn (generate_html E ui_prompt (print (''  Read prompt from: '' @ ui_prompt_path) w1))
               (\<lambda>html_content w2.
                  let html_content = extract_code html_content
                  in thn (save_file E html_content html_path w2)
                       (\<lambda>_ w3. (Inr html_content, print ''  HTML generation complete'' w3))))"

definition step_javascript :: "env \<Rightarrow> string \<Rightarrow> world \<Rightarrow> (error + string) \<times> world" where
  \<comment> \<open>Step 2: Generate JavaScript with HTML context\<close>
  "step_javascript E html_content w =
     (let w1 = print ''\<newline>[STEP 2/4] Generating JavaScript with HTML context'' w
      in case read_prompt_file logic_prompt_path w1 of
           Inl e \<Rightarrow> (Inl e, w1)
         | Inr logic_prompt \<Rightarrow>
             thn (generate_javascript E logic_prompt html_content
                    (print (''  Read prompt from: '' @ logic_prompt_path) w1))
               (\<lambda>js_content w2.
                  let js_content = extract_code js_content
                  in thn (save_file E js_content js_path w2)
                       (\<lambda>_ w3. (Inr js_content, print ''  JavaScript generation complete'' w3))))"

definition step_css :: "env \<Rightarrow> string \<Rightarrow> string \<Rightarrow> world \<Rightarrow> (error + string) \<times> world" where
  \<comment> \<open>Step 3: Generate CSS with HTML and JS context\<close>
  "step_css E html_content js_content w =
     (let w1 = print ''\<newline>[STEP 3/4] Generating CSS with HTML and JavaScript context'' w
      in case read_prompt_file style_prompt_path w1 of
           Inl e \<Rightarrow> (Inl e, w1)
         | Inr style_prompt \<Rightarrow>
             thn (generate_css E style_prompt html_content js_content
                    (print (''  Read prompt from: '' @ style_prompt_path) w1))
               (\<lambda>css_content w2.
                  let css_content = extract_code css_content
                  in thn (save_file E css_content css_path w2)
                       (\<lambda>_ w3. (Inr css_content, print ''  CSS generation complete'' w3))))"

definition step_tests ::
  "env \<Rightarrow> string \<Rightarrow> string \<Rightarrow> string \<Rightarrow> world \<Rightarrow> (error + string) \<times> world" where
  \<comment> \<open>Step 4: Generate tests with all previous context\<close>
  "step_tests E html_content js_content css_content w =
     (let w1 = print ''\<newline>[STEP 4/4] Generating tests with full application context'' w
      in case read_prompt_file test_prompt_path w1 of
           Inl e \<Rightarrow> (Inl e, w1)
         | Inr test_prompt \<Rightarrow>
             thn (generate_tests E test_prompt html_content js_content css_content
                    (print (''  Read prompt from: '' @ test_prompt_path) w1))
               (\<lambda>test_content w2.
                  let test_content = extract_code test_content
                  in thn (save_file E test_content test_path w2)
                       (\<lambda>_ w3. (Inr test_content, print ''  Test generation complete'' w3))))"

definition summary :: "world \<Rightarrow> world" where
  \<comment> \<open>the prints that close the \<^verbatim>\<open>try\<close> block\<close>
  "summary w =
     print ''  2. Run 'make test' to run the tests''
       (print ''  1. Run 'make serve' to start a development server''
         (print ''\<newline>Next steps:''
           (print (''  - Tests: '' @ test_path)
             (print (''  - CSS: '' @ css_path)
               (print (''  - JavaScript: '' @ js_path)
                 (print (''  - HTML: '' @ html_path)
                   (print ''Generated files:''
                     (print (replicate 80 (CHR ''='') @ ''\<newline>'')
                       (print '' CODE GENERATION COMPLETED SUCCESSFULLY''
                         (print (''\<newline>'' @ replicate 80 (CHR ''='')) w))))))))))"

definition main_try :: "env \<Rightarrow> world \<Rightarrow> ((stage \<times> error) + unit) \<times> world" where
  \<comment> \<open>the body of the \<^verbatim>\<open>try\<close> block\<close>
  "main_try E w =
     thn (at HTML (step_html E (banner E w))) (\<lambda>html_content w1.
     thn (at Script (step_javascript E html_content w1)) (\<lambda>js_content w2.
     thn (at Style (step_css E html_content js_content w2)) (\<lambda>css_content w3.
     thn (at Tests (step_tests E html_content js_content css_content w3)) (\<lambda>test_content w4.
     thn (at Auxiliary (generate_config_files E w4)) (\<lambda>_ w5.
     (Inr (), summary w5))))))"

definition uncaught :: "error \<Rightarrow> world \<Rightarrow> nat \<times> world" where
  \<comment> \<open>an exception outside the \<^verbatim>\<open>try\<close> block: the interpreter writes the traceback, of which
      the first line and the message are kept, to standard error and exits with code 1\<close>
  "uncaught e w =
     (1, w\<lparr>stderr := stderr w @ [''Traceback (most recent call last):'', error_str e]\<rparr>)"

definition main :: "env \<Rightarrow> args \<Rightarrow> world \<Rightarrow> nat \<times> world" where
  \<comment> \<open>the exit code of the process and the world it leaves; \<open>args\<close> is the parsed
      command line\<close>
  "main E args w =
     (case makedirs E OUTPUT_DIR of
        Inl e \<Rightarrow> uncaught e w
      | Inr _ \<Rightarrow>
          (case makedirs E (joinpath OUTPUT_DIR ''tests'') of
             Inl e \<Rightarrow> uncaught e w
           | Inr _ \<Rightarrow>
               (case main_try E w of
                  (Inl (k, e), w1) \<Rightarrow>
                    (1, print (''\<newline>Error during code generation: '' @ error_str e) w1)
                | (Inr _, w1) \<Rightarrow> (0, w1))))"

section \<open>Notions used to state and prove the properties\<close>



definition success_line :: string where
  "success_line = '' CODE GENERATION COMPLETED SUCCESSFULLY''"

definition quiet :: "world \<Rightarrow> world \<Rightarrow> bool" where
  "quiet w w' \<longleftrightarrow> (\<exists>ls. stdout w' = stdout w @ ls \<and> success_line \<notin> set ls)"

definition key_ok :: "env \<Rightarrow> bool" where
  "key_ok E \<longleftrightarrow> (\<exists>k. environ E ''LLM_API_KEY'' = Some k \<and> k \<noteq> [])"

definition can_write :: "env \<Rightarrow> path \<Rightarrow> bool" where
  "can_write E p \<longleftrightarrow>
     makedirs E (dirname p) = Inr () \<and> refuse E p = None \<and> (\<forall>text. torn E p text = None)"

definition default_request :: "env \<Rightarrow> request \<Rightarrow> bool" where
  \<comment> \<open>a request made with the model, the endpoint and the key of the environment\<close>
  "default_request E q \<longleftrightarrow>
     req_model q = DEFAULT_MODEL E \<and> req_url q = DEFAULT_API_ENDPOINT E
     \<and> req_authorization q = ''Bearer '' @ the (environ E ''LLM_API_KEY'')"

definition block ::
  "env \<Rightarrow> string \<Rightarrow> path \<Rightarrow> (string \<Rightarrow> world \<Rightarrow> (error + string) \<times> world) \<Rightarrow> path \<Rightarrow> string
    \<Rightarrow> world \<Rightarrow> (error + string) \<times> world" where
  "block E heading prompt_path gen out_path done w =
     (let w1 = print heading w
      in case read_prompt_file prompt_path w1 of
           Inl e \<Rightarrow> (Inl e, w1)
         | Inr p \<Rightarrow>
             thn (gen p (print (''  Read prompt from: '' @ prompt_path) w1))
               (\<lambda>raw w2.
                  let c = extract_code raw
                  in thn (save_file E c out_path w2)
                       (\<lambda>_ w3. (Inr c, print done w3))))"

definition one_call ::
  "env \<Rightarrow> (string \<Rightarrow> string) \<Rightarrow> string \<Rightarrow> (string \<Rightarrow> world \<Rightarrow> (error + string) \<times> world) \<Rightarrow> bool" where
  \<comment> \<open>a generator is one print and one call of the model\<close>
  "one_call E user sm gen \<longleftrightarrow>
     (\<exists>msg. msg \<noteq> success_line
        \<and> (\<forall>p w. gen p w = call_llm_api E (user p) sm None None None (print msg w)))"

definition primary_stages ::
  "env \<Rightarrow> world \<Rightarrow> ((stage \<times> error) + (string \<times> string \<times> string \<times> string)) \<times> world" where
  "primary_stages E w =
     thn (at HTML (step_html E (banner E w))) (\<lambda>html_content w1.
     thn (at Script (step_javascript E html_content w1)) (\<lambda>js_content w2.
     thn (at Style (step_css E html_content js_content w2)) (\<lambda>css_content w3.
     thn (at Tests (step_tests E html_content js_content css_content w3)) (\<lambda>test_content w4.
     (Inr (html_content, js_content, css_content, test_content), w4)))))"

section \<open>Example runs\<close>

text \<open>
  A world with the four prompt files, and several surroundings: a model that always answers
  \<open>x\<close>; a scripted model whose answers differ from request to request, the first one
  fenced; the scripted model unavailable at the fifth or at the sixth request of the run;
  and the scripted model with a disk on which \<^verbatim>\<open>generated/app.js\<close> can be opened but not
  written.
\<close>

definition demo_world :: world where
  "demo_world =
     \<lparr>files = [ui_prompt_path \<mapsto> ''Build a calculator page. '',
               logic_prompt_path \<mapsto> ''Add, subtract, multiply, divide.'',
               style_prompt_path \<mapsto> ''Dark theme.'',
               test_prompt_path \<mapsto> ''Test every operator.''],
      calls = [], stdout = [], stderr = []\<rparr>"

definition answering_env :: env where
  "answering_env =
     \<lparr>environ = [''LLM_API_KEY'' \<mapsto> ''sk-env''],
      post = (\<lambda>history request. Inr ''x''),
      seconds = (\<lambda>n. ''0.50''),
      refuse = Map.empty,
      torn = (\<lambda>file_path text. None)\<rparr>"

definition replies :: "string list" where
  \<comment> \<open>the answers of the scripted model, in the order of the requests of a run\<close>
  "replies =
     [''```html\<newline><main>0</main>\<newline>```'',
      ''let total = 0;'',
      ''main { color: red }'',
      ''test(total)'',
      ''module.exports = {};'',
      ''export default {};'',
      ''{}'']"

definition reply :: "nat \<Rightarrow> string" where
  "reply n = (if n < length replies then replies ! n else [])"

definition scripted_env :: env where
  "scripted_env = answering_env\<lparr>post := (\<lambda>history request. Inr (reply (length history)))\<rparr>"

definition unavailable :: error where
  "unavailable = RequestError ''503 Server Error: Service Unavailable''"

definition babel_failing_env :: env where
  \<comment> \<open>only the fifth request, the one for \<^verbatim>\<open>babel.config.js\<close>, fails\<close>
  "babel_failing_env =
     answering_env\<lparr>post := (\<lambda>history request.
        if length history = 4 then Inl unavailable else Inr (reply (length history)))\<rparr>"

definition jest_failing_env :: env where
  \<comment> \<open>only the sixth request, the one for \<^verbatim>\<open>jest.config.js\<close>, fails\<close>
  "jest_failing_env =
     answering_env\<lparr>post := (\<lambda>history request.
        if length history = 5 then Inl unavailable else Inr (reply (length history)))\<rparr>"

definition disk_full_env :: env where
  \<comment> \<open>\<^verbatim>\<open>generated/app.js\<close> is opened, and nothing can be written into it\<close>
  "disk_full_env =
     scripted_env\<lparr>torn := (\<lambda>file_path text.
        if file_path = js_path then Some (0, ''[Errno 28] No space left on device'') else None)\<rparr>"

definition quota_env :: env where
  \<comment> \<open>the write into \<^verbatim>\<open>generated/app.js\<close> fails after three characters\<close>
  "quota_env =
     scripted_env\<lparr>torn := (\<lambda>file_path text.
        if file_path = js_path then Some (3, ''[Errno 122] Disk quota exceeded'') else None)\<rparr>"

definition cli_args :: args where
  "cli_args = \<lparr>arg_model = Some ''gpt-4o'', arg_api_key = Some ''sk-cli'',
     arg_endpoint = Some ''https://llm.example/v1''\<rparr>"

definition incomplete_world :: world where
  "incomplete_world = demo_world\<lparr>files := (files demo_world)(test_prompt_path := None)\<rparr>"

section \<open>Facts about the string operations\<close>

lemma startswith_iff: "startswith s sub \<longleftrightarrow> (\<exists>zs. s = sub @ zs)"
  by (induction s sub rule: startswith.induct) auto

lemma finds_ge: "- 1 \<le> finds s sub"
  by (induction s) (auto simp: Let_def)

lemma rfinds_ge: "- 1 \<le> rfinds s sub"
  by (induction s) (auto simp: Let_def)

lemma finds_le: "finds s sub \<le> int (length s)"
  by (induction s) (auto simp: Let_def)

lemma rfinds_le: "rfinds s sub \<le> int (length s)"
  by (induction s) (auto simp: Let_def)

lemma finds_found_iff: "0 \<le> finds s sub \<longleftrightarrow> (\<exists>ys zs. s = ys @ sub @ zs)"
proof (induction s)
  case Nil
  then show ?case by auto
next
  case (Cons x xs)
  show ?case
  proof (cases "startswith (x # xs) sub")
    case True
    then obtain zs where "x # xs = sub @ zs" by (auto simp: startswith_iff)
    then have "x # xs = [] @ sub @ zs" by simp
    with True show ?thesis by (metis finds.simps(2) order_refl)
  next
    case False
    have "(\<exists>ys zs. x # xs = ys @ sub @ zs) \<longleftrightarrow> (\<exists>ys zs. xs = ys @ sub @ zs)"
    proof
      assume "\<exists>ys zs. x # xs = ys @ sub @ zs"
      then obtain ys zs where e: "x # xs = ys @ sub @ zs" by blast
      with False have "ys \<noteq> []" by (auto simp: startswith_iff)
      then obtain ys' where "ys = x # ys'" using e by (cases ys) auto
      with e show "\<exists>ys zs. xs = ys @ sub @ zs" by auto
    next
      assume "\<exists>ys zs. xs = ys @ sub @ zs"
      then obtain ys zs where "xs = ys @ sub @ zs" by blast
      then have "x # xs = (x # ys) @ sub @ zs" by simp
      then show "\<exists>ys zs. x # xs = ys @ sub @ zs" by blast
    qed
    moreover have "0 \<le> finds (x # xs) sub \<longleftrightarrow> 0 \<le> finds xs sub"
      using False by (auto simp: Let_def)
    ultimately show ?thesis using Cons.IH by simp
  qed
qed

lemma contains_iff: "contains s sub \<longleftrightarrow> (\<exists>ys zs. s = ys @ sub @ zs)"
proof -
  have "contains s sub \<longleftrightarrow> 0 \<le> finds s sub"
    using finds_ge [of s sub] by (auto simp: contains_def)
  then show ?thesis by (simp add: finds_found_iff)
qed

lemma rfinds_found_iff: "0 \<le> rfinds s sub \<longleftrightarrow> 0 \<le> finds s sub"
  by (induction s) (auto simp: Let_def)

lemma strip_Nil: "strip [] = []" by (simp add: strip_def)

lemma dropWhile_id: "s \<noteq> [] \<Longrightarrow> \<not> P (hd s) \<Longrightarrow> dropWhile P s = s"
  by (cases s) auto

lemma strip_ends:
  "strip s = [] \<or> (\<not> is_space (hd (strip s)) \<and> \<not> is_space (last (strip s)))"
proof (cases "strip s = []")
  case True then show ?thesis by simp
next
  case False
  let ?a = "dropWhile is_space s"
  let ?b = "dropWhile is_space (rev ?a)"
  have b: "?b \<noteq> []" using False by (simp add: strip_def)
  then have l: "\<not> is_space (hd ?b)" by (rule hd_dropWhile)
  have a: "?a \<noteq> []" using b by (metis dropWhile.simps(1) rev_is_Nil_conv)
  then have ha: "\<not> is_space (hd ?a)" by (rule hd_dropWhile)
  have "last (strip s) = hd ?b" using b by (simp add: strip_def last_rev)
  moreover have "hd (strip s) = last ?b" using b by (simp add: strip_def hd_rev)
  moreover have "last ?b = hd ?a"
  proof -
    obtain ys where "rev ?a = ys @ ?b"
      by (metis takeWhile_dropWhile_id)
    then have "last (rev ?a) = last ?b" using b by (metis last_appendR)
    then show ?thesis using a by (simp add: last_rev)
  qed
  ultimately show ?thesis using l ha by simp
qed

lemma strip_fixed:
  "s = [] \<or> (\<not> is_space (hd s) \<and> \<not> is_space (last s)) \<Longrightarrow> strip s = s"
proof (cases "s = []")
  case True then show ?thesis by (simp add: strip_def)
next
  case False
  assume "s = [] \<or> (\<not> is_space (hd s) \<and> \<not> is_space (last s))"
  with False have h: "\<not> is_space (hd s)" and l: "\<not> is_space (last s)" by auto
  have 1: "dropWhile is_space s = s" using False h by (rule dropWhile_id)
  have "hd (rev s) = last s" using False by (simp add: hd_rev)
  then have 2: "dropWhile is_space (rev s) = rev s" using False l by (simp add: dropWhile_id)
  show ?thesis by (simp add: strip_def 1 2)
qed

lemma strip_idem: "strip (strip s) = strip s"
  using strip_ends [of s] by (rule strip_fixed)

lemma strip_snoc_space: "is_space c \<Longrightarrow> strip (s @ [c]) = strip s"
proof (cases "\<forall>x\<in>set s. is_space x")
  case True
  assume c: "is_space c"
  from True have 1: "dropWhile is_space s = []" by simp
  from True c have 2: "dropWhile is_space (s @ [c]) = []" by simp
  show ?thesis by (simp only: strip_def 1 2)
next
  case False
  assume c: "is_space c"
  from False obtain x where "x \<in> set s" and "\<not> is_space x" by blast
  then have "dropWhile is_space (s @ [c]) = dropWhile is_space s @ [c]"
    by (rule dropWhile_append1)
  then show ?thesis using c by (simp add: strip_def)
qed

lemma strip_spaces_prefix: "\<forall>x\<in>set ws. is_space x \<Longrightarrow> strip (ws @ s) = strip s"
  by (simp add: strip_def dropWhile_append2)

lemma py_index_nonneg: "0 \<le> i \<Longrightarrow> py_index s i = min (nat i) (length s)"
  by (auto simp: py_index_def Let_def)

lemma py_slice_nonneg:
  "0 \<le> a \<Longrightarrow> 0 \<le> b \<Longrightarrow> py_slice s a b = drop (nat a) (take (nat b) s)"
  by (simp add: py_slice_def py_index_nonneg min_def)

lemma py_slice_empty: "0 \<le> b \<Longrightarrow> b \<le> a \<Longrightarrow> py_slice s a b = []"
  by (simp add: py_slice_nonneg)

lemma find_from_ge:
  assumes "0 \<le> a" and "contains (py_slice s a b) sub" and "sub \<noteq> []"
  shows "a \<le> find_from s sub a"
proof -
  obtain ys zs where e: "py_slice s a b = ys @ sub @ zs"
    using assms(2) by (auto simp: contains_iff)
  have "py_slice s a b = drop (nat a) (take (py_index s b) s)"
    using assms(1) by (simp add: py_slice_def py_index_nonneg min_def)
  then have "py_slice s a b = take (py_index s b - nat a) (drop (nat a) s)"
    by (simp add: drop_take)
  with e have "drop (nat a) s = ys @ sub @ (zs @ drop (py_index s b - nat a) (drop (nat a) s))"
    by (metis append_take_drop_id append.assoc)
  then have f: "0 \<le> finds (drop (nat a) s) sub"
    unfolding finds_found_iff by blast
  show ?thesis
  proof (cases "int (length s) < a")
    case True
    then have "drop (nat a) s = []" by simp
    then have "py_slice s a b = []" using assms(1) by (simp add: py_slice_def py_index_nonneg)
    with e have "sub = []" by simp
    with assms(3) show ?thesis by simp
  next
    case False
    then have "py_index s a = nat a" using assms(1) by (simp add: py_index_nonneg)
    with False f assms(1) show ?thesis by (simp add: find_from_def Let_def)
  qed
qed

lemma finds_prefix: "finds (sub @ zs) sub = 0"
proof (cases "sub @ zs")
  case Nil then show ?thesis by simp
next
  case (Cons x xs)
  have "startswith (sub @ zs) sub" by (auto simp: startswith_iff)
  with Cons show ?thesis by simp
qed

lemma startswith_length: "startswith s sub \<Longrightarrow> length sub \<le> length s"
  by (auto simp: startswith_iff)

lemma rfinds_short: "length s < length sub \<Longrightarrow> rfinds s sub = -1"
proof (induction s)
  case Nil then show ?case by auto
next
  case (Cons x xs)
  then have "rfinds xs sub = -1" by simp
  moreover have "\<not> startswith (x # xs) sub"
    using Cons.prems startswith_length [of "x # xs" sub] by auto
  ultimately show ?case by simp
qed

lemma rfinds_suffix: "sub \<noteq> [] \<Longrightarrow> rfinds (ys @ sub) sub = int (length ys)"
proof (induction ys)
  case Nil
  then obtain c cs where s: "sub = c # cs" by (cases sub) auto
  have "rfinds cs sub = -1" by (rule rfinds_short) (simp add: s)
  moreover have "startswith sub sub" by (simp add: startswith_iff)
  ultimately have "rfinds (c # cs) sub = 0" using s by simp
  then show ?case using s by simp
next
  case (Cons y ys)
  then show ?case by (simp add: Let_def)
qed

lemma finds_char: "c \<notin> set xs \<Longrightarrow> finds (xs @ c # zs) [c] = int (length xs)"
  by (induction xs) (auto simp: Let_def)

lemma contains_char: "contains s [c] \<longleftrightarrow> c \<in> set s"
  by (simp add: contains_iff in_set_conv_decomp)

lemma in_take_first:
  "c \<notin> set xs \<Longrightarrow> c \<in> set (take n (xs @ c # zs)) \<longleftrightarrow> length xs < n"
proof -
  assume c: "c \<notin> set xs"
  show ?thesis
  proof (cases "length xs < n")
    case True
    then obtain m where "n - length xs = Suc m" by (cases "n - length xs") auto
    then show ?thesis using True by simp
  next
    case False
    then have "take n (xs @ c # zs) = take n xs" by simp
    with c False show ?thesis by (auto dest: in_set_takeD)
  qed
qed

lemma py_slice_middle:
  "py_slice (a @ b @ c) (int (length a)) (int (length a + length b)) = b"
  by (simp add: py_slice_nonneg)

text \<open>
  \<open>finds\<close> and \<open>rfinds\<close> are the first and the last occurrence, as \<^verbatim>\<open>find\<close> and
  \<^verbatim>\<open>rfind\<close> are.
\<close>

lemma occurrence_found:
  assumes "startswith (drop j s) sub"
  shows "0 \<le> finds s sub"
proof -
  from assms obtain zs where "drop j s = sub @ zs" by (auto simp: startswith_iff)
  then have "s = take j s @ sub @ zs" by (metis append_take_drop_id)
  then show ?thesis unfolding finds_found_iff by blast
qed

lemma finds_first:
  "0 \<le> finds s sub \<Longrightarrow>
     startswith (drop (nat (finds s sub)) s) sub
     \<and> (\<forall>j < nat (finds s sub). \<not> startswith (drop j s) sub)"
proof (induction s)
  case Nil
  then show ?case by (auto split: if_splits)
next
  case (Cons x xs)
  show ?case
  proof (cases "startswith (x # xs) sub")
    case True
    then show ?thesis by simp
  next
    case False
    with Cons.prems have r: "0 \<le> finds xs sub" and f: "finds (x # xs) sub = finds xs sub + 1"
      by (auto simp: Let_def split: if_splits)
    from r have n: "nat (finds xs sub + 1) = Suc (nat (finds xs sub))" by simp
    from Cons.IH [OF r] have ih: "startswith (drop (nat (finds xs sub)) xs) sub"
      "\<forall>j < nat (finds xs sub). \<not> startswith (drop j xs) sub" by simp_all
    have "\<forall>j < Suc (nat (finds xs sub)). \<not> startswith (drop j (x # xs)) sub"
    proof (intro allI impI)
      fix j assume "j < Suc (nat (finds xs sub))"
      then show "\<not> startswith (drop j (x # xs)) sub"
        using False ih(2) by (cases j) simp_all
    qed
    with ih(1) show ?thesis unfolding f n by simp
  qed
qed

lemma rfinds_last:
  "0 \<le> rfinds s sub \<Longrightarrow>
     startswith (drop (nat (rfinds s sub)) s) sub
     \<and> (\<forall>j. nat (rfinds s sub) < j \<and> j \<le> length s \<longrightarrow> \<not> startswith (drop j s) sub)"
proof (induction s)
  case Nil
  then show ?case by (auto split: if_splits)
next
  case (Cons x xs)
  show ?case
  proof (cases "0 \<le> rfinds xs sub")
    case True
    then have f: "rfinds (x # xs) sub = rfinds xs sub + 1" by (simp add: Let_def)
    from True have n: "nat (rfinds xs sub + 1) = Suc (nat (rfinds xs sub))" by simp
    from Cons.IH [OF True] have ih: "startswith (drop (nat (rfinds xs sub)) xs) sub"
      "\<forall>j. nat (rfinds xs sub) < j \<and> j \<le> length xs \<longrightarrow> \<not> startswith (drop j xs) sub"
      by simp_all
    have "\<forall>j. Suc (nat (rfinds xs sub)) < j \<and> j \<le> length (x # xs)
        \<longrightarrow> \<not> startswith (drop j (x # xs)) sub"
    proof (intro allI impI)
      fix j assume "Suc (nat (rfinds xs sub)) < j \<and> j \<le> length (x # xs)"
      then show "\<not> startswith (drop j (x # xs)) sub"
        using ih(2) by (cases j) simp_all
    qed
    with ih(1) show ?thesis unfolding f n by simp
  next
    case False
    with Cons.prems have s: "startswith (x # xs) sub" and f: "rfinds (x # xs) sub = 0"
      by (auto simp: Let_def split: if_splits)
    have "\<forall>j. 0 < j \<and> j \<le> length (x # xs) \<longrightarrow> \<not> startswith (drop j (x # xs)) sub"
    proof (intro allI impI notI)
      fix j assume j: "0 < j \<and> j \<le> length (x # xs)"
        and o: "startswith (drop j (x # xs)) sub"
      from j obtain j' where "j = Suc j'" by (cases j) auto
      with o have "startswith (drop j' xs) sub" by simp
      then have "0 \<le> finds xs sub" by (rule occurrence_found)
      with False show False by (simp add: rfinds_found_iff)
    qed
    with s show ?thesis unfolding f by simp
  qed
qed

section \<open>Properties of \<^verbatim>\<open>extract_code\<close>\<close>

lemma extract_code_strip: "\<exists>z. extract_code x = strip z"
  by (auto simp: extract_code_def Let_def)

text \<open>
  Claim C5, as stated, fails: with three delimiters the first extraction returns a text
  that still holds a delimiter, and the second extraction empties it.
\<close>

theorem extract_code_not_idempotent_counterexample:
  "extract_code (extract_code ''```a```b```'') = []
   \<and> extract_code ''```a```b```'' = ''a```b''"
  by code_simp

text \<open>
  Claim C5, as amended. \<^verbatim>\<open>extract_code\<close> is idempotent at every text \<open>x\<close> whose extraction
  \<^verbatim>\<open>extract_code(x)\<close> holds no fence delimiter (already-unwrapped text):
  \<^verbatim>\<open>extract_code(extract_code(x)) == extract_code(x)\<close>.
\<close>

theorem extract_code_idempotent_unfenced:
  "\<not> (\<exists>ys zs. extract_code x = ys @ fence @ zs)
   \<Longrightarrow> extract_code (extract_code x) = extract_code x"
proof -
  assume "\<not> (\<exists>ys zs. extract_code x = ys @ fence @ zs)"
  then have n: "\<not> contains (extract_code x) fence" by (simp add: contains_iff)
  obtain z where z: "extract_code x = strip z" using extract_code_strip by blast
  have "extract_code (extract_code x) = strip (extract_code x)"
    using n by (simp add: extract_code_def)
  then show ?thesis by (simp add: z strip_idem)
qed

theorem extract_code_idempotent_unfenced_witness:
  "\<not> (\<exists>ys zs. extract_code ''```js\<newline>let x = 1;\<newline>```'' = ys @ fence @ zs)
   \<and> extract_code (extract_code ''```js\<newline>let x = 1;\<newline>```'') = ''let x = 1;''"
proof -
  have "\<not> contains (extract_code ''```js\<newline>let x = 1;\<newline>```'') fence" by code_simp
  then have h: "\<not> (\<exists>ys zs. extract_code ''```js\<newline>let x = 1;\<newline>```'' = ys @ fence @ zs)"
    unfolding contains_iff .
  have v: "extract_code ''```js\<newline>let x = 1;\<newline>```'' = ''let x = 1;''" by code_simp
  have "extract_code (extract_code ''```js\<newline>let x = 1;\<newline>```'') = ''let x = 1;''"
    using extract_code_idempotent_unfenced [OF h] by (simp only: v)
  with h show ?thesis by (rule conjI)
qed

text \<open>
  Claim C6, as stated, fails for a tag line of 20 characters or more: no line break lies
  in the 20 characters after the opening delimiter, the tag line is not skipped and it
  stays in the result.
\<close>

theorem extract_code_long_tag_counterexample:
  "extract_code (fence @ ''javascript title=app.js'' @ newline @ ''x'' @ newline @ fence)
     = ''javascript title=app.js\<newline>x''
   \<and> extract_code (fence @ ''javascript title=app.js'' @ newline @ ''x'' @ newline @ fence)
     \<noteq> strip ''x''"
  by code_simp

text \<open>
  Claim C6, as amended. For a response \<^verbatim>\<open>```lang\ncode\n```\<close> whose tag line \<open>lang\<close> has no
  line break, \<^verbatim>\<open>extract_code\<close> returns the trimmed code when the tag line is shorter than
  20 characters and the 10 characters after the opening delimiter are not all whitespace;
  otherwise the tag line is not skipped and the result is the tag line and the code
  together, trimmed.
\<close>

theorem extract_code_fenced_block:
  assumes nl: "CHR 0x0A \<notin> set lang"
  shows "extract_code (fence @ lang @ newline @ code @ newline @ fence) =
     (if length lang < 20 \<and> strip (take 10 (lang @ newline @ code @ newline @ fence)) \<noteq> []
      then strip code
      else strip (lang @ newline @ code))"
proof -
  define rest where "rest = lang @ newline @ code @ newline @ fence"
  define s where "s = fence @ rest"
  define start0 where "start0 = finds s fence + 3"
  have len: "length fence = 3" by (simp add: fence_def)
  have c: "contains s fence" unfolding contains_iff s_def by (metis append_Nil)
  have f: "start0 = 3" unfolding start0_def s_def by (simp add: finds_prefix)
  have "s = (fence @ lang @ newline @ code @ newline) @ fence" by (simp add: s_def rest_def)
  then have "rfinds s fence = int (length (fence @ lang @ newline @ code @ newline))"
    by (metis rfinds_suffix fence_def list.distinct(1))
  then have r: "rfinds s fence = (int (length lang) + int (length code) + 5)"
    by (simp add: len newline_def)
  have s10: "py_slice s start0 (start0 + 10) = take 10 rest"
    by (simp add: f s_def py_slice_nonneg drop_take len)
  have s20: "py_slice s start0 (start0 + 20) = take 20 rest"
    by (simp add: f s_def py_slice_nonneg drop_take len)
  have "contains (take 20 rest) newline
      \<longleftrightarrow> CHR 0x0A \<in> set (take 20 (lang @ CHR 0x0A # (code @ newline @ fence)))"
    by (simp add: rest_def newline_def contains_char)
  then have c20: "contains (take 20 rest) newline \<longleftrightarrow> length lang < 20"
    using in_take_first [OF nl, of 20 "code @ newline @ fence"] by simp
  have ff: "find_from s newline start0 + 1 = int (length lang) + 4"
    using finds_char [OF nl]
    by (simp add: f s_def rest_def find_from_def py_index_nonneg len newline_def)
  have skip: "py_slice s (int (length lang) + 4) ((int (length lang) + int (length code) + 5))
      = code @ newline"
    using py_slice_middle [of "fence @ lang @ newline" "code @ newline" fence]
    by (simp add: s_def rest_def len newline_def add.commute add.left_commute)
  have keep: "py_slice s start0 ((int (length lang) + int (length code) + 5))
      = lang @ newline @ code @ newline"
    using py_slice_middle [of fence "lang @ newline @ code @ newline" fence]
    by (simp add: f s_def rest_def len newline_def add.commute add.left_commute)
  have sp: "is_space (CHR 0x0A)" by (simp add: is_space_def)
  have st1: "strip (code @ newline) = strip code"
    using strip_snoc_space [OF sp] by (simp add: newline_def)
  have st2: "strip (lang @ newline @ code @ newline) = strip (lang @ newline @ code)"
    using strip_snoc_space [OF sp, of "lang @ newline @ code"] by (simp add: newline_def)
  have "extract_code s =
     (if length lang < 20 \<and> strip (take 10 rest) \<noteq> [] then strip code
      else strip (lang @ newline @ code))"
    unfolding extract_code_def Let_def start0_def [symmetric]
    using c by (simp add: s10 s20 c20 ff r skip keep st1 st2 conj_commute)
  then show ?thesis by (simp add: s_def rest_def)
qed

theorem extract_code_fenced_block_witness:
  "CHR 0x0A \<notin> set ''python''
   \<and> extract_code (fence @ ''python'' @ newline @ ''x = 1'' @ newline @ fence) = ''x = 1''"
proof -
  have h: "CHR 0x0A \<notin> set ''python''" by simp
  have c: "length ''python'' < 20
      \<and> strip (take 10 (''python'' @ newline @ ''x = 1'' @ newline @ fence)) \<noteq> []"
    by code_simp
  have v: "strip ''x = 1'' = ''x = 1''" by code_simp
  have "extract_code (fence @ ''python'' @ newline @ ''x = 1'' @ newline @ fence) = ''x = 1''"
    using extract_code_fenced_block [OF h, of "''x = 1''"] by (simp only: c v simp_thms if_True)
  with h show ?thesis by (rule conjI)
qed

text \<open>
  Claim C7. For every text \<open>x\<close> in which the fence delimiter does not occur,
  \<^verbatim>\<open>extract_code(x)\<close> is \<open>x\<close> trimmed.
\<close>

theorem extract_code_no_fence:
  "\<not> (\<exists>ys zs. x = ys @ fence @ zs) \<Longrightarrow> extract_code x = strip x"
  by (simp add: extract_code_def contains_iff)

theorem extract_code_no_fence_witness:
  "\<not> (\<exists>ys zs. ''  <p>hello</p> '' = ys @ fence @ zs)
   \<and> extract_code ''  <p>hello</p> '' = ''<p>hello</p>''"
proof -
  have "\<not> contains ''  <p>hello</p> '' fence" by code_simp
  then have h: "\<not> (\<exists>ys zs. ''  <p>hello</p> '' = ys @ fence @ zs)"
    unfolding contains_iff .
  have v: "strip ''  <p>hello</p> '' = ''<p>hello</p>''" by code_simp
  have "extract_code ''  <p>hello</p> '' = ''<p>hello</p>''"
    using extract_code_no_fence [OF h] by (simp only: v)
  with h show ?thesis by (rule conjI)
qed

text \<open>
  Claim C10. When the fence delimiter occurs in \<open>x\<close> and its first occurrence
  (\<^verbatim>\<open>find\<close>) is also its last (\<^verbatim>\<open>rfind\<close>), \<^verbatim>\<open>extract_code(x)\<close> is the empty string.
\<close>

theorem extract_code_single_fence:
  assumes "contains x fence" and "finds x fence = rfinds x fence"
  shows "extract_code x = []"
proof -
  let ?i = "finds x fence"
  have i: "0 \<le> ?i" using assms(1) finds_ge [of x fence] by (simp add: contains_def)
  define start where "start =
     (if strip (py_slice x (?i + 3) (?i + 3 + 10)) \<noteq> []
         \<and> contains (py_slice x (?i + 3) (?i + 3 + 20)) newline
      then find_from x newline (?i + 3) + 1 else ?i + 3)"
  have "?i + 3 \<le> start"
    using find_from_ge [of "?i + 3" x "?i + 3 + 20" newline] i
    by (auto simp: start_def newline_def)
  then have "py_slice x start (rfinds x fence) = []"
    using i assms(2) by (intro py_slice_empty) auto
  then show ?thesis
    using assms(1) by (simp add: extract_code_def Let_def start_def strip_Nil)
qed

theorem extract_code_single_fence_witness:
  "contains ''Here you go:\<newline>```html\<newline><p>hi</p>'' fence
   \<and> finds ''Here you go:\<newline>```html\<newline><p>hi</p>'' fence
       = rfinds ''Here you go:\<newline>```html\<newline><p>hi</p>'' fence
   \<and> extract_code ''Here you go:\<newline>```html\<newline><p>hi</p>'' = []"
proof -
  have c: "contains ''Here you go:\<newline>```html\<newline><p>hi</p>'' fence" by code_simp
  have e: "finds ''Here you go:\<newline>```html\<newline><p>hi</p>'' fence
       = rfinds ''Here you go:\<newline>```html\<newline><p>hi</p>'' fence" by code_simp
  show ?thesis using c e extract_code_single_fence [OF c e] by (intro conjI)
qed

section \<open>Facts about the pipeline\<close>

lemma print_simps [simp]:
  "files (print s w) = files w" "calls (print s w) = calls w"
  "stderr (print s w) = stderr w" "stdout (print s w) = stdout w @ [s]"
  by (simp_all add: print_def)

lemma banner_simps [simp]:
  "files (banner E w) = files w" "calls (banner E w) = calls w"
  "stderr (banner E w) = stderr w"
  by (simp_all add: banner_def)

lemma summary_simps [simp]:
  "files (summary w) = files w" "calls (summary w) = calls w"
  "stderr (summary w) = stderr w"
  by (simp_all add: summary_def)

lemma read_prompt_file_print [simp]:
  "read_prompt_file p (print s w) = read_prompt_file p w"
  by (simp add: read_prompt_file_def)

lemma read_prompt_file_banner [simp]:
  "read_prompt_file p (banner E w) = read_prompt_file p w"
  by (simp add: read_prompt_file_def)

lemma call_llm_api_frame:
  assumes "call_llm_api E prompt sm model key ep w = (r, w')"
  shows "files w' = files w" and "stderr w' = stderr w"
  using assms
  by (auto simp: call_llm_api_def Let_def split: if_splits sum.splits)

lemma call_llm_api_calls:
  assumes "call_llm_api E prompt sm model key ep w = (r, w')"
  shows "calls w' = calls w \<and> (\<exists>e. r = Inl e)
     \<or> (\<exists>q. calls w' = calls w @ [q] \<and> post E (calls w) q = r
            \<and> req_user q = prompt \<and> req_system q = sm
            \<and> req_model q = or_default model (DEFAULT_MODEL E)
            \<and> req_url q = or_default ep (DEFAULT_API_ENDPOINT E)
            \<and> req_authorization q
                = ''Bearer '' @ the (if falsy key then environ E ''LLM_API_KEY'' else key))"
  using assms
  by (auto simp: call_llm_api_def Let_def split: if_splits sum.splits)

lemma step_html_block:
  "step_html E = block E ''\<newline>[STEP 1/4] Generating HTML from UI prompt'' ui_prompt_path
     (generate_html E) html_path ''  HTML generation complete''"
  by (rule ext) (simp add: step_html_def block_def)

lemma step_javascript_block:
  "step_javascript E html = block E ''\<newline>[STEP 2/4] Generating JavaScript with HTML context''
     logic_prompt_path (\<lambda>p. generate_javascript E p html) js_path
     ''  JavaScript generation complete''"
  by (rule ext) (simp add: step_javascript_def block_def)

lemma step_css_block:
  "step_css E html js = block E ''\<newline>[STEP 3/4] Generating CSS with HTML and JavaScript context''
     style_prompt_path (\<lambda>p. generate_css E p html js) css_path
     ''  CSS generation complete''"
  by (rule ext) (simp add: step_css_def block_def)

lemma step_tests_block:
  "step_tests E html js css = block E ''\<newline>[STEP 4/4] Generating tests with full application context''
     test_prompt_path (\<lambda>p. generate_tests E p html js css) test_path
     ''  Test generation complete''"
  by (rule ext) (simp add: step_tests_def block_def)

lemma call_llm_api_key:
  assumes "call_llm_api E prompt sm model None ep w = (Inr raw, w')"
  shows "key_ok E"
  using assms
  by (auto simp: call_llm_api_def Let_def falsy_def key_ok_def
      split: if_splits sum.splits option.splits)

lemma write_text_cases:
  assumes "write_text E p c w = (r, w')"
  shows "stderr w' = stderr w \<and> calls w' = calls w \<and> stdout w' = stdout w
     \<and> (\<forall>p'. p' \<noteq> p \<longrightarrow> files w' p' = files w p')
     \<and> ((\<exists>m. r = Inl (OSError m) \<and> refuse E p = Some m \<and> files w' = files w)
        \<or> (\<exists>n m. r = Inl (WriteError m) \<and> refuse E p = None \<and> torn E p c = Some (n, m)
              \<and> files w' = (files w)(p \<mapsto> take n c))
        \<or> (r = Inr () \<and> refuse E p = None \<and> torn E p c = None
              \<and> files w' = (files w)(p \<mapsto> c)))"
  using assms
  by (cases "refuse E p"; cases "torn E p c") (auto simp: write_text_def Let_def)

lemma save_file_cases:
  assumes "save_file E c out w = (r, w')"
  shows "stderr w' = stderr w \<and> calls w' = calls w
     \<and> (\<forall>p'. p' \<noteq> out \<longrightarrow> files w' p' = files w p')
     \<and> ((\<exists>e. r = Inl e \<and> files w' = files w)
        \<or> (\<exists>n m. r = Inl (WriteError m) \<and> refuse E out = None \<and> torn E out c = Some (n, m)
              \<and> files w' = (files w)(out \<mapsto> take n c))
        \<or> (r = Inr () \<and> files w' = (files w)(out \<mapsto> c)))"
proof (cases "makedirs E (dirname out)")
  case (Inl e)
  with assms have "r = Inl e" and "w' = w" by (simp_all add: save_file_def)
  then show ?thesis by simp
next
  case (Inr u)
  obtain r1 w1 where t: "write_text E out c w = (r1, w1)" by (cases "write_text E out c w")
  show ?thesis
  proof (cases r1)
    case (Inl e)
    with Inr assms t have "r = r1" "w' = w1" by (simp_all add: save_file_def thn_def)
    with write_text_cases [OF t] Inl show ?thesis by auto
  next
    case r1: (Inr u')
    with Inr assms t have "r = Inr ()" "files w' = files w1" "stderr w' = stderr w1"
      "calls w' = calls w1" by (auto simp: save_file_def thn_def print_def)
    with write_text_cases [OF t] r1 show ?thesis by auto
  qed
qed

lemma one_call_html:
  "one_call E (\<lambda>p. html_instruction @ ''\<newline>\<newline>'' @ p) default_system_message (generate_html E)"
proof -
  have "''  Generating standalone HTML without prior context...'' \<noteq> success_line"
    by (simp add: success_line_def)
  then show ?thesis unfolding one_call_def generate_html_def Let_def by blast
qed

lemma one_call_javascript:
  "one_call E (\<lambda>p. javascript_request_context html @ ''\<newline>'' @ p) javascript_instruction
     (\<lambda>p. generate_javascript E p html)"
proof -
  have "''  Generating JavaScript with HTML context...'' \<noteq> success_line"
    by (simp add: success_line_def)
  then show ?thesis unfolding one_call_def generate_javascript_def Let_def by blast
qed

lemma one_call_css:
  "one_call E (\<lambda>p. css_request_context html js @ ''\<newline>'' @ p) css_instruction
     (\<lambda>p. generate_css E p html js)"
proof -
  have "''  Generating CSS with HTML and JavaScript context...'' \<noteq> success_line"
    by (simp add: success_line_def)
  then show ?thesis unfolding one_call_def generate_css_def Let_def by blast
qed

lemma one_call_tests:
  "one_call E (\<lambda>p. tests_request_context html js css @ ''\<newline>'' @ p) tests_instruction
     (\<lambda>p. generate_tests E p html js css)"
proof -
  have "''  Generating tests with full application context...'' \<noteq> success_line"
    by (simp add: success_line_def)
  then show ?thesis unfolding one_call_def generate_tests_def Let_def by blast
qed

lemma one_call_cases:
  assumes "one_call E user sm gen" and "gen p w = (r, w')"
  shows "files w' = files w \<and> stderr w' = stderr w
     \<and> (calls w' = calls w \<and> (\<exists>e. r = Inl e)
        \<or> (\<exists>q. calls w' = calls w @ [q] \<and> post E (calls w) q = r
              \<and> req_user q = user p \<and> req_system q = sm
              \<and> default_request E q))"
proof -
  from assms obtain msg where
    g: "call_llm_api E (user p) sm None None None (print msg w) = (r, w')"
    by (auto simp: one_call_def)
  from call_llm_api_frame [OF g] call_llm_api_calls [OF g]
  show ?thesis by (auto simp: or_default_def default_request_def falsy_def)
qed


lemma block_success:
  assumes "one_call E user sm gen"
    and "block E heading prompt_path gen out_path done w = (Inr a, w')"
  shows "\<exists>text raw q. files w prompt_path = Some text
     \<and> calls w' = calls w @ [q] \<and> post E (calls w) q = Inr raw
     \<and> req_user q = user (strip text) \<and> req_system q = sm
     \<and> default_request E q
     \<and> a = extract_code raw
     \<and> files w' = (files w)(out_path \<mapsto> a) \<and> stderr w' = stderr w"
  using assms(2)
  by (auto simp: block_def thn_def Let_def read_prompt_file_def
      split: sum.splits prod.splits option.splits
      dest!: one_call_cases [OF assms(1)] save_file_cases)

lemma block_missing_prompt:
  "files w prompt_path = None \<Longrightarrow>
   fst (block E heading prompt_path gen out_path done w) = Inl (FileNotFoundError prompt_path)"
  by (simp add: block_def read_prompt_file_def)

lemmas paths = ui_prompt_path_def logic_prompt_path_def style_prompt_path_def
  test_prompt_path_def html_path_def js_path_def css_path_def test_path_def
  joinpath_def OUTPUT_DIR_def PROMPT_DIR_def

lemma thn_assoc: "thn (thn m f) g = thn m (\<lambda>x w. thn (f x w) g)"
  by (auto simp: thn_def split: prod.splits sum.splits)

lemma thn_Inr: "thn (Inr x, w) f = f x w"
  by (simp add: thn_def)

lemma thn_Inl: "thn (Inl e, w) f = (Inl e, w)"
  by (simp add: thn_def)

lemma at_simps: "at k (Inl e, w) = (Inl (k, e), w)" "at k (Inr x, w) = (Inr x, w)"
  by (simp_all add: at_def)

lemma main_try_primary:
  "main_try E w =
     thn (primary_stages E w) (\<lambda>_ w4.
     thn (at Auxiliary (generate_config_files E w4)) (\<lambda>_ w5. (Inr (), summary w5)))"
  by (simp add: main_try_def primary_stages_def thn_assoc thn_Inr)

lemma primary_stages_cases:
  assumes "primary_stages E w = (r, w')"
  obtains
    (html) e where "r = Inl (HTML, e)" and "step_html E (banner E w) = (Inl e, w')"
  | (script) h w1 e where "step_html E (banner E w) = (Inr h, w1)"
      and "r = Inl (Script, e)" and "step_javascript E h w1 = (Inl e, w')"
  | (style) h w1 j w2 e where "step_html E (banner E w) = (Inr h, w1)"
      and "step_javascript E h w1 = (Inr j, w2)"
      and "r = Inl (Style, e)" and "step_css E h j w2 = (Inl e, w')"
  | (tests) h w1 j w2 c w3 e where "step_html E (banner E w) = (Inr h, w1)"
      and "step_javascript E h w1 = (Inr j, w2)" and "step_css E h j w2 = (Inr c, w3)"
      and "r = Inl (Tests, e)" and "step_tests E h j c w3 = (Inl e, w')"
  | (ok) h w1 j w2 c w3 t where "step_html E (banner E w) = (Inr h, w1)"
      and "step_javascript E h w1 = (Inr j, w2)" and "step_css E h j w2 = (Inr c, w3)"
      and "step_tests E h j c w3 = (Inr t, w')" and "r = Inr (h, j, c, t)"
proof -
  obtain r1 w1 where s1: "step_html E (banner E w) = (r1, w1)" by (cases "step_html E (banner E w)")
  show thesis
  proof (cases r1)
    case (Inl e)
    with s1 assms html show thesis
      by (auto simp: primary_stages_def thn_Inl at_simps)
  next
    case h: (Inr h)
    obtain r2 w2 where s2: "step_javascript E h w1 = (r2, w2)" by (cases "step_javascript E h w1")
    show thesis
    proof (cases r2)
      case (Inl e)
      with s1 h s2 assms script show thesis
        by (auto simp: primary_stages_def thn_Inl thn_Inr at_simps)
    next
      case j: (Inr j)
      obtain r3 w3 where s3: "step_css E h j w2 = (r3, w3)" by (cases "step_css E h j w2")
      show thesis
      proof (cases r3)
        case (Inl e)
        with s1 h s2 j s3 assms style show thesis
          by (auto simp: primary_stages_def thn_Inl thn_Inr at_simps)
      next
        case c: (Inr c)
        obtain r4 w4 where s4: "step_tests E h j c w3 = (r4, w4)"
          by (cases "step_tests E h j c w3")
        show thesis
        proof (cases r4)
          case (Inl e)
          with s1 h s2 j s3 c s4 assms tests show thesis
            by (auto simp: primary_stages_def thn_Inl thn_Inr at_simps)
        next
          case (Inr t)
          with s1 h s2 j s3 c s4 assms ok show thesis
            by (auto simp: primary_stages_def thn_Inl thn_Inr at_simps)
        qed
      qed
    qed
  qed
qed





lemma step_html_success:
  assumes "step_html E w = (Inr a, w')"
  shows "\<exists>text raw q. files w ui_prompt_path = Some text
     \<and> calls w' = calls w @ [q] \<and> post E (calls w) q = Inr raw
     \<and> req_user q = html_instruction @ ''\<newline>\<newline>'' @ strip text
     \<and> req_system q = default_system_message
     \<and> default_request E q
     \<and> a = extract_code raw
     \<and> files w' = (files w)(html_path \<mapsto> a) \<and> stderr w' = stderr w"
  using assms unfolding step_html_block by (rule block_success [OF one_call_html])

lemma step_javascript_success:
  assumes "step_javascript E h w = (Inr a, w')"
  shows "\<exists>text raw q. files w logic_prompt_path = Some text
     \<and> calls w' = calls w @ [q] \<and> post E (calls w) q = Inr raw
     \<and> req_user q = javascript_request_context h @ ''\<newline>'' @ strip text
     \<and> req_system q = javascript_instruction
     \<and> default_request E q
     \<and> a = extract_code raw
     \<and> files w' = (files w)(js_path \<mapsto> a) \<and> stderr w' = stderr w"
  using assms unfolding step_javascript_block by (rule block_success [OF one_call_javascript])

lemma step_css_success:
  assumes "step_css E h j w = (Inr a, w')"
  shows "\<exists>text raw q. files w style_prompt_path = Some text
     \<and> calls w' = calls w @ [q] \<and> post E (calls w) q = Inr raw
     \<and> req_user q = css_request_context h j @ ''\<newline>'' @ strip text
     \<and> req_system q = css_instruction
     \<and> default_request E q
     \<and> a = extract_code raw
     \<and> files w' = (files w)(css_path \<mapsto> a) \<and> stderr w' = stderr w"
  using assms unfolding step_css_block by (rule block_success [OF one_call_css])

lemma step_tests_success:
  assumes "step_tests E h j c w = (Inr a, w')"
  shows "\<exists>text raw q. files w test_prompt_path = Some text
     \<and> calls w' = calls w @ [q] \<and> post E (calls w) q = Inr raw
     \<and> req_user q = tests_request_context h j c @ ''\<newline>'' @ strip text
     \<and> req_system q = tests_instruction
     \<and> default_request E q
     \<and> a = extract_code raw
     \<and> files w' = (files w)(test_path \<mapsto> a) \<and> stderr w' = stderr w"
  using assms unfolding step_tests_block by (rule block_success [OF one_call_tests])

lemma step_html_missing:
  "files w ui_prompt_path = None \<Longrightarrow> fst (step_html E w) = Inl (FileNotFoundError ui_prompt_path)"
  unfolding step_html_block by (rule block_missing_prompt)

lemma primary_success:
  assumes "primary_stages E w = (Inr (h, j, c, t), w4)"
  shows "\<exists>t1 t2 t3 t4 r1 r2 r3 r4 q1 q2 q3 q4.
      files w ui_prompt_path = Some t1 \<and> files w logic_prompt_path = Some t2
    \<and> files w style_prompt_path = Some t3 \<and> files w test_prompt_path = Some t4
    \<and> calls w4 = calls w @ [q1, q2, q3, q4]
    \<and> post E (calls w) q1 = Inr r1 \<and> post E (calls w @ [q1]) q2 = Inr r2
    \<and> post E (calls w @ [q1, q2]) q3 = Inr r3 \<and> post E (calls w @ [q1, q2, q3]) q4 = Inr r4
    \<and> req_user q1 = html_instruction @ ''\<newline>\<newline>'' @ strip t1
    \<and> req_user q2 = javascript_request_context h @ ''\<newline>'' @ strip t2
    \<and> req_user q3 = css_request_context h j @ ''\<newline>'' @ strip t3
    \<and> req_user q4 = tests_request_context h j c @ ''\<newline>'' @ strip t4
    \<and> req_system q1 = default_system_message \<and> req_system q2 = javascript_instruction
    \<and> req_system q3 = css_instruction \<and> req_system q4 = tests_instruction
    \<and> default_request E q1 \<and> default_request E q2
    \<and> default_request E q3 \<and> default_request E q4
    \<and> h = extract_code r1 \<and> j = extract_code r2 \<and> c = extract_code r3 \<and> t = extract_code r4
    \<and> files w4 = (files w)(html_path \<mapsto> h, js_path \<mapsto> j, css_path \<mapsto> c, test_path \<mapsto> t)
    \<and> stderr w4 = stderr w"
  using assms
proof (cases rule: primary_stages_cases)
  case (ok h' w1 j' w2 c' w3 t')
  then have eq: "h' = h" "j' = j" "c' = c" "t' = t" by simp_all
  from step_html_success [OF ok(1)] obtain t1 r1 q1 where
    1: "files w ui_prompt_path = Some t1" "calls w1 = calls w @ [q1]"
       "post E (calls w) q1 = Inr r1"
       "req_user q1 = html_instruction @ ''\<newline>\<newline>'' @ strip t1" "h' = extract_code r1"
       "files w1 = (files w)(html_path \<mapsto> h')" "stderr w1 = stderr w"
       "req_system q1 = default_system_message" "default_request E q1"
    by auto
  from step_javascript_success [OF ok(2)] obtain t2 r2 q2 where
    2: "files w1 logic_prompt_path = Some t2" "calls w2 = calls w1 @ [q2]"
       "post E (calls w1) q2 = Inr r2"
       "req_user q2 = javascript_request_context h' @ ''\<newline>'' @ strip t2" "j' = extract_code r2"
       "files w2 = (files w1)(js_path \<mapsto> j')" "stderr w2 = stderr w1"
       "req_system q2 = javascript_instruction" "default_request E q2"
    by auto
  from step_css_success [OF ok(3)] obtain t3 r3 q3 where
    3: "files w2 style_prompt_path = Some t3" "calls w3 = calls w2 @ [q3]"
       "post E (calls w2) q3 = Inr r3"
       "req_user q3 = css_request_context h' j' @ ''\<newline>'' @ strip t3" "c' = extract_code r3"
       "files w3 = (files w2)(css_path \<mapsto> c')" "stderr w3 = stderr w2"
       "req_system q3 = css_instruction" "default_request E q3"
    by auto
  from step_tests_success [OF ok(4)] obtain t4 r4 q4 where
    4: "files w3 test_prompt_path = Some t4" "calls w4 = calls w3 @ [q4]"
       "post E (calls w3) q4 = Inr r4"
       "req_user q4 = tests_request_context h' j' c' @ ''\<newline>'' @ strip t4" "t' = extract_code r4"
       "files w4 = (files w3)(test_path \<mapsto> t')" "stderr w4 = stderr w3"
       "req_system q4 = tests_instruction" "default_request E q4"
    by auto
  have p2: "files w logic_prompt_path = Some t2" using 2(1) 1(6) by (simp add: paths)
  have p3: "files w style_prompt_path = Some t3" using 3(1) 2(6) 1(6) by (simp add: paths)
  have p4: "files w test_prompt_path = Some t4" using 4(1) 3(6) 2(6) 1(6) by (simp add: paths)
  have cs: "calls w4 = calls w @ [q1, q2, q3, q4]" using 1(2) 2(2) 3(2) 4(2) by simp
  have po: "post E (calls w @ [q1]) q2 = Inr r2" "post E (calls w @ [q1, q2]) q3 = Inr r3"
    "post E (calls w @ [q1, q2, q3]) q4 = Inr r4"
    using 1(2) 2(2,3) 3(2,3) 4(3) by simp_all
  have fs: "files w4 = (files w)(html_path \<mapsto> h, js_path \<mapsto> j, css_path \<mapsto> c, test_path \<mapsto> t)"
    using 1(6) 2(6) 3(6) 4(6) eq by simp
  have se: "stderr w4 = stderr w" using 1(7) 2(7) 3(7) 4(7) by simp
  show ?thesis
    using 1(1,3,4,5,8,9) p2 p3 p4 cs po 2(4,5,8,9) 3(4,5,8,9) 4(4,5,8,9) fs se unfolding eq
    by blast
qed simp_all



lemma config_call:
  assumes "key_ok E"
    and "call_llm_api E prompt sm (Some (DEFAULT_MODEL E)) (environ E ''LLM_API_KEY'') None w
           = (r, w')"
  shows "\<exists>q. calls w' = calls w @ [q] \<and> post E (calls w) q = r
       \<and> req_user q = prompt \<and> req_system q = sm \<and> default_request E q
       \<and> files w' = files w \<and> stderr w' = stderr w"
  using assms
  by (auto simp: call_llm_api_def Let_def falsy_def key_ok_def default_request_def
      or_default_def split: if_splits sum.splits)

lemma config_loop_Cons_cases:
  assumes "config_loop E (c # cs) w = (r, w')"
  obtains
    (asking) e where "r = Inl e"
      and "call_llm_api E (snd c) config_system_message (Some (DEFAULT_MODEL E))
             (environ E ''LLM_API_KEY'') None w = (Inl e, w')"
  | (writing) content w1 e where "r = Inl e"
      and "call_llm_api E (snd c) config_system_message (Some (DEFAULT_MODEL E))
             (environ E ''LLM_API_KEY'') None w = (Inr content, w1)"
      and "write_text E (fst c) content w1 = (Inl e, w')"
  | (going) content w1 w2 where
      "call_llm_api E (snd c) config_system_message (Some (DEFAULT_MODEL E))
             (environ E ''LLM_API_KEY'') None w = (Inr content, w1)"
      and "write_text E (fst c) content w1 = (Inr (), w2)"
      and "config_loop E cs w2 = (r, w')"
proof -
  obtain r1 w1 where c1:
    "call_llm_api E (snd c) config_system_message (Some (DEFAULT_MODEL E))
       (environ E ''LLM_API_KEY'') None w = (r1, w1)"
    by (cases "call_llm_api E (snd c) config_system_message (Some (DEFAULT_MODEL E))
       (environ E ''LLM_API_KEY'') None w")
  show thesis
  proof (cases r1)
    case (Inl e)
    with assms c1 have "r = Inl e" "w' = w1" by (simp_all add: Let_def)
    with c1 Inl asking show thesis by simp
  next
    case (Inr content)
    obtain r2 w2 where t: "write_text E (fst c) content w1 = (r2, w2)"
      by (cases "write_text E (fst c) content w1")
    show thesis
    proof (cases r2)
      case (Inl e)
      with assms c1 Inr t have "r = Inl e" "w' = w2" by (simp_all add: Let_def)
      with c1 Inr t Inl writing show thesis by simp
    next
      case u: (Inr u)
      with assms c1 Inr t have "config_loop E cs w2 = (r, w')" by (simp add: Let_def)
      with c1 Inr t u going show thesis by simp
    qed
  qed
qed

lemma config_loop_frame:
  "config_loop E cs w = (r, w') \<Longrightarrow>
     stderr w' = stderr w \<and> (\<forall>p. p \<notin> fst ` set cs \<longrightarrow> files w' p = files w p)
     \<and> (\<exists>qs. calls w' = calls w @ qs \<and> length qs \<le> length cs)"
proof (induction cs arbitrary: w)
  case Nil
  then show ?case by simp
next
  case (Cons c cs)
  from Cons.prems show ?case
  proof (cases rule: config_loop_Cons_cases)
    case (asking e)
    from call_llm_api_frame [OF asking(2)] call_llm_api_calls [OF asking(2)]
    show ?thesis by auto
  next
    case (writing content w1 e)
    from call_llm_api_frame [OF writing(2)] call_llm_api_calls [OF writing(2)]
    have f1: "files w1 = files w" "stderr w1 = stderr w"
      "\<exists>qs. calls w1 = calls w @ qs \<and> length qs \<le> 1" by auto
    from write_text_cases [OF writing(3)]
    have "stderr w' = stderr w1" "calls w' = calls w1"
      "\<forall>p. p \<noteq> fst c \<longrightarrow> files w' p = files w1 p" by simp_all
    with f1 show ?thesis by auto
  next
    case (going content w1 w2)
    from call_llm_api_frame [OF going(1)] call_llm_api_calls [OF going(1)]
    have f1: "files w1 = files w" "stderr w1 = stderr w"
      "\<exists>qs. calls w1 = calls w @ qs \<and> length qs \<le> 1" by auto
    from write_text_cases [OF going(2)]
    have f2: "stderr w2 = stderr w1" "calls w2 = calls w1"
      "\<forall>p. p \<noteq> fst c \<longrightarrow> files w2 p = files w1 p" by simp_all
    from Cons.IH [OF going(3)] f1 f2 show ?thesis by (auto simp: le_Suc_eq)
  qed
qed

lemma config_loop_failure:
  assumes key: "key_ok E"
  shows "config_loop E cs w = (Inl e, w') \<Longrightarrow> distinct (map fst cs) \<Longrightarrow>
     \<exists>written c rest qs q. cs = written @ c # rest
       \<and> calls w' = calls w @ qs @ [q]
       \<and> map req_user (qs @ [q]) = map snd (written @ [c])
       \<and> (\<forall>i < length written. \<exists>r. post E (calls w @ take i qs) (qs ! i) = Inr r
             \<and> files w' (fst (written ! i)) = Some r)
       \<and> (post E (calls w @ qs) q = Inl e \<and> files w' (fst c) = files w (fst c)
          \<or> (\<exists>r m. post E (calls w @ qs) q = Inr r \<and> refuse E (fst c) = Some m
                \<and> e = OSError m \<and> files w' (fst c) = files w (fst c))
          \<or> (\<exists>r n m. post E (calls w @ qs) q = Inr r \<and> refuse E (fst c) = None
                \<and> torn E (fst c) r = Some (n, m) \<and> e = WriteError m
                \<and> files w' (fst c) = Some (take n r)))
       \<and> (\<forall>x \<in> set rest. files w' (fst x) = files w (fst x))"
proof (induction cs arbitrary: w)
  case Nil
  then show ?case by simp
next
  case (Cons c0 cs)
  from Cons.prems(2) have d: "distinct (map fst cs)" and n: "fst c0 \<notin> fst ` set cs" by auto
  have away: "\<And>x. x \<in> set cs \<Longrightarrow> fst x \<noteq> fst c0" using n by (metis imageI)
  from Cons.prems(1) show ?case
  proof (cases rule: config_loop_Cons_cases)
    case (asking e')
    then have e: "e' = e" by simp
    from config_call [OF key asking(2)] obtain q where
      q: "calls w' = calls w @ [q]" "post E (calls w) q = Inl e" "req_user q = snd c0"
        "files w' = files w" unfolding e by blast
    have "c0 # cs = [] @ c0 # cs
       \<and> calls w' = calls w @ [] @ [q]
       \<and> map req_user ([] @ [q]) = map snd ([] @ [c0])
       \<and> (\<forall>i < length ([] :: (string \<times> string) list).
             \<exists>r. post E (calls w @ take i []) ([] ! i) = Inr r
             \<and> files w' (fst ([] ! i)) = Some r)
       \<and> (post E (calls w @ []) q = Inl e \<and> files w' (fst c0) = files w (fst c0)
          \<or> (\<exists>r m. post E (calls w @ []) q = Inr r \<and> refuse E (fst c0) = Some m
                \<and> e = OSError m \<and> files w' (fst c0) = files w (fst c0))
          \<or> (\<exists>r n m. post E (calls w @ []) q = Inr r \<and> refuse E (fst c0) = None
                \<and> torn E (fst c0) r = Some (n, m) \<and> e = WriteError m
                \<and> files w' (fst c0) = Some (take n r)))
       \<and> (\<forall>x \<in> set cs. files w' (fst x) = files w (fst x))"
      using q by simp
    then show ?thesis by blast
  next
    case (writing content w1 e')
    then have e: "e' = e" by simp
    from config_call [OF key writing(2)] obtain q where
      q: "calls w1 = calls w @ [q]" "post E (calls w) q = Inr content" "req_user q = snd c0"
        "files w1 = files w" by blast
    note t = write_text_cases [OF writing(3) [unfolded e]]
    from t have c: "calls w' = calls w1"
      and o: "\<forall>p. p \<noteq> fst c0 \<longrightarrow> files w' p = files w1 p" by simp_all
    from t have how:
      "(\<exists>m. refuse E (fst c0) = Some m \<and> e = OSError m \<and> files w' (fst c0) = files w (fst c0))
       \<or> (\<exists>n m. refuse E (fst c0) = None \<and> torn E (fst c0) content = Some (n, m)
             \<and> e = WriteError m \<and> files w' (fst c0) = Some (take n content))"
      using q(4) by auto
    have rest: "\<forall>x \<in> set cs. files w' (fst x) = files w (fst x)"
      using o q(4) away by simp
    have "c0 # cs = [] @ c0 # cs
       \<and> calls w' = calls w @ [] @ [q]
       \<and> map req_user ([] @ [q]) = map snd ([] @ [c0])
       \<and> (\<forall>i < length ([] :: (string \<times> string) list).
             \<exists>r. post E (calls w @ take i []) ([] ! i) = Inr r
             \<and> files w' (fst ([] ! i)) = Some r)
       \<and> (post E (calls w @ []) q = Inl e \<and> files w' (fst c0) = files w (fst c0)
          \<or> (\<exists>r m. post E (calls w @ []) q = Inr r \<and> refuse E (fst c0) = Some m
                \<and> e = OSError m \<and> files w' (fst c0) = files w (fst c0))
          \<or> (\<exists>r n m. post E (calls w @ []) q = Inr r \<and> refuse E (fst c0) = None
                \<and> torn E (fst c0) r = Some (n, m) \<and> e = WriteError m
                \<and> files w' (fst c0) = Some (take n r)))
       \<and> (\<forall>x \<in> set cs. files w' (fst x) = files w (fst x))"
      using q(1-3) c how rest by auto
    then show ?thesis by blast
  next
    case (going content w1 w2)
    from config_call [OF key going(1)] obtain q0 where
      q0: "calls w1 = calls w @ [q0]" "post E (calls w) q0 = Inr content"
        "req_user q0 = snd c0" "files w1 = files w" by blast
    from write_text_cases [OF going(2)]
    have w2: "calls w2 = calls w @ [q0]" "files w2 = (files w)(fst c0 \<mapsto> content)"
      using q0 by auto
    from Cons.IH [OF going(3) d] obtain written c rest qs q where
      ih: "cs = written @ c # rest"
        "calls w' = calls w2 @ qs @ [q]"
        "map req_user (qs @ [q]) = map snd (written @ [c])"
        "\<forall>i < length written. \<exists>r. post E (calls w2 @ take i qs) (qs ! i) = Inr r
             \<and> files w' (fst (written ! i)) = Some r"
        "post E (calls w2 @ qs) q = Inl e \<and> files w' (fst c) = files w2 (fst c)
          \<or> (\<exists>r m. post E (calls w2 @ qs) q = Inr r \<and> refuse E (fst c) = Some m
                \<and> e = OSError m \<and> files w' (fst c) = files w2 (fst c))
          \<or> (\<exists>r n m. post E (calls w2 @ qs) q = Inr r \<and> refuse E (fst c) = None
                \<and> torn E (fst c) r = Some (n, m) \<and> e = WriteError m
                \<and> files w' (fst c) = Some (take n r))"
        "\<forall>x \<in> set rest. files w' (fst x) = files w2 (fst x)"
      by blast
    from config_loop_frame [OF going(3)] n
    have here: "files w' (fst c0) = Some content" by (simp add: w2(2))
    have hist: "\<And>ys. calls w2 @ ys = calls w @ q0 # ys" by (simp add: w2(1))
    have c_in: "c \<in> set cs" and rest_in: "\<And>x. x \<in> set rest \<Longrightarrow> x \<in> set cs"
      using ih(1) by auto
    have fc: "files w2 (fst c) = files w (fst c)" using away [OF c_in] by (simp add: w2(2))
    have A: "c0 # cs = (c0 # written) @ c # rest" using ih(1) by simp
    have B: "calls w' = calls w @ (q0 # qs) @ [q]" using ih(2) by (simp add: w2(1))
    have C: "map req_user ((q0 # qs) @ [q]) = map snd ((c0 # written) @ [c])"
      using ih(3) q0(3) by simp
    have D: "\<forall>i < length (c0 # written).
        \<exists>r. post E (calls w @ take i (q0 # qs)) ((q0 # qs) ! i) = Inr r
             \<and> files w' (fst ((c0 # written) ! i)) = Some r"
    proof (intro allI impI)
      fix i assume i: "i < length (c0 # written)"
      show "\<exists>r. post E (calls w @ take i (q0 # qs)) ((q0 # qs) ! i) = Inr r
             \<and> files w' (fst ((c0 # written) ! i)) = Some r"
      proof (cases i)
        case 0
        then show ?thesis using q0(2) here by simp
      next
        case (Suc i')
        with i have "i' < length written" by simp
        with ih(4) obtain r where "post E (calls w2 @ take i' qs) (qs ! i') = Inr r"
          "files w' (fst (written ! i')) = Some r" by blast
        then show ?thesis by (simp add: Suc hist)
      qed
    qed
    have F: "post E (calls w @ q0 # qs) q = Inl e \<and> files w' (fst c) = files w (fst c)
          \<or> (\<exists>r m. post E (calls w @ q0 # qs) q = Inr r \<and> refuse E (fst c) = Some m
                \<and> e = OSError m \<and> files w' (fst c) = files w (fst c))
          \<or> (\<exists>r n m. post E (calls w @ q0 # qs) q = Inr r \<and> refuse E (fst c) = None
                \<and> torn E (fst c) r = Some (n, m) \<and> e = WriteError m
                \<and> files w' (fst c) = Some (take n r))"
      using ih(5) unfolding hist fc .
    have G: "\<forall>x \<in> set rest. files w' (fst x) = files w (fst x)"
    proof
      fix x assume x: "x \<in> set rest"
      from away [OF rest_in [OF x]] have "files w2 (fst x) = files w (fst x)"
        by (simp add: w2(2))
      with ih(6) x show "files w' (fst x) = files w (fst x)" by simp
    qed
    from A B C D F G show ?thesis by blast
  qed
qed

lemma quiet_refl: "quiet w w"
  by (simp add: quiet_def)

lemma quiet_trans: "quiet w w1 \<Longrightarrow> quiet w1 w2 \<Longrightarrow> quiet w w2"
  by (fastforce simp: quiet_def)

lemma quiet_print: "s \<noteq> success_line \<Longrightarrow> quiet w w1 \<Longrightarrow> quiet w (print s w1)"
  by (auto simp: quiet_def)

lemma quiet_update [simp]:
  "quiet w (w1\<lparr>files := f\<rparr>) = quiet w w1" "quiet w (w1\<lparr>calls := c\<rparr>) = quiet w w1"
  by (simp_all add: quiet_def)

lemma quiet_banner: "quiet w (banner E w)"
  unfolding banner_def
  by (intro quiet_print quiet_refl) (simp_all add: success_line_def)

lemma call_llm_api_quiet:
  assumes "call_llm_api E prompt sm model key ep w = (r, w')"
  shows "quiet w w'"
proof -
  have "quiet w (snd (call_llm_api E prompt sm model key ep w))"
    by (auto simp: call_llm_api_def Let_def success_line_def split: sum.splits
        intro!: quiet_print quiet_refl)
  with assms show ?thesis by simp
qed

lemma write_text_quiet:
  assumes "write_text E p c w = (r, w')"
  shows "quiet w w'"
  using write_text_cases [OF assms] by (simp add: quiet_def)

lemma save_file_quiet:
  assumes "save_file E c out w = (r, w')"
  shows "quiet w w'"
proof (cases "makedirs E (dirname out)")
  case (Inl e)
  with assms have "w' = w" by (simp add: save_file_def)
  then show ?thesis by (simp add: quiet_refl)
next
  case (Inr u)
  obtain r1 w1 where t: "write_text E out c w = (r1, w1)" by (cases "write_text E out c w")
  note q1 = write_text_quiet [OF t]
  show ?thesis
  proof (cases r1)
    case (Inl e)
    with Inr assms t have "w' = w1" by (simp add: save_file_def thn_def)
    with q1 show ?thesis by simp
  next
    case r1: (Inr u')
    with Inr assms t have "w' = print (''  Saved: '' @ out @ '' ('' @ show_nat (length c)
        @ '' bytes)'') w1" by (simp add: save_file_def thn_def)
    moreover have "''  Saved: '' @ out @ '' ('' @ show_nat (length c) @ '' bytes)'' \<noteq> success_line"
      by (simp add: success_line_def)
    ultimately show ?thesis using q1 by (simp add: quiet_print)
  qed
qed

lemma one_call_quiet:
  assumes "one_call E user sm gen" and "gen p w = (r, w')"
  shows "quiet w w'"
proof -
  from assms obtain msg where m: "msg \<noteq> success_line"
    and g: "call_llm_api E (user p) sm None None None (print msg w) = (r, w')"
    by (auto simp: one_call_def)
  have "quiet w (print msg w)" using m by (intro quiet_print quiet_refl)
  then show ?thesis using call_llm_api_quiet [OF g] by (rule quiet_trans)
qed

lemma block_quiet:
  assumes oc: "one_call E user sm gen"
    and h: "heading \<noteq> success_line" and d: "done \<noteq> success_line"
    and b: "block E heading prompt_path gen out_path done w = (r, w')"
  shows "quiet w w'"
proof -
  let ?w1 = "print heading w"
  have q1: "quiet w ?w1" using h by (intro quiet_print quiet_refl)
  show ?thesis
  proof (cases "read_prompt_file prompt_path ?w1")
    case (Inl e)
    with b have "w' = ?w1" by (simp add: block_def)
    with q1 show ?thesis by simp
  next
    case (Inr p)
    let ?w1' = "print (''  Read prompt from: '' @ prompt_path) ?w1"
    have q1': "quiet w ?w1'"
    proof (rule quiet_print)
      show "''  Read prompt from: '' @ prompt_path \<noteq> success_line"
        by (simp add: success_line_def)
      show "quiet w ?w1" by (rule q1)
    qed
    obtain r2 w2 where g: "gen p ?w1' = (r2, w2)" by (cases "gen p ?w1'")
    have q2: "quiet w w2" using q1' one_call_quiet [OF oc g] by (rule quiet_trans)
    show ?thesis
    proof (cases r2)
      case (Inl e)
      with b Inr g have "w' = w2" by (simp add: block_def thn_def)
      with q2 show ?thesis by simp
    next
      case raw: (Inr raw)
      obtain r3 w3 where s: "save_file E (extract_code raw) out_path w2 = (r3, w3)"
        by (cases "save_file E (extract_code raw) out_path w2")
      have q3: "quiet w w3" using q2 save_file_quiet [OF s] by (rule quiet_trans)
      show ?thesis
      proof (cases r3)
        case (Inl e)
        with b Inr g raw s have "w' = w3" by (simp add: block_def thn_def)
        with q3 show ?thesis by simp
      next
        case (Inr u)
        with b \<open>read_prompt_file prompt_path ?w1 = Inr p\<close> g raw s
        have "w' = print done w3" by (simp add: block_def thn_def)
        with q3 d show ?thesis by (simp add: quiet_print)
      qed
    qed
  qed
qed

lemma step_html_quiet: "step_html E w = (r, w') \<Longrightarrow> quiet w w'"
  unfolding step_html_block
  by (rule block_quiet [OF one_call_html]) (simp_all add: success_line_def)

lemma step_javascript_quiet: "step_javascript E h w = (r, w') \<Longrightarrow> quiet w w'"
  unfolding step_javascript_block
  by (rule block_quiet [OF one_call_javascript]) (simp_all add: success_line_def)

lemma step_css_quiet: "step_css E h j w = (r, w') \<Longrightarrow> quiet w w'"
  unfolding step_css_block
  by (rule block_quiet [OF one_call_css]) (simp_all add: success_line_def)

lemma step_tests_quiet: "step_tests E h j c w = (r, w') \<Longrightarrow> quiet w w'"
  unfolding step_tests_block
  by (rule block_quiet [OF one_call_tests]) (simp_all add: success_line_def)

lemma primary_stages_quiet:
  assumes "primary_stages E w = (r, w')"
  shows "quiet w w'"
  using assms
proof (cases rule: primary_stages_cases)
  case (html e)
  from quiet_banner step_html_quiet [OF html(2)] show ?thesis by (rule quiet_trans)
next
  case (script h w1 e)
  from quiet_banner step_html_quiet [OF script(1)] have "quiet w w1" by (rule quiet_trans)
  then show ?thesis using step_javascript_quiet [OF script(3)] by (rule quiet_trans)
next
  case (style h w1 j w2 e)
  from quiet_banner step_html_quiet [OF style(1)] have "quiet w w1" by (rule quiet_trans)
  then have "quiet w w2" using step_javascript_quiet [OF style(2)] by (rule quiet_trans)
  then show ?thesis using step_css_quiet [OF style(4)] by (rule quiet_trans)
next
  case (tests h w1 j w2 c w3 e)
  from quiet_banner step_html_quiet [OF tests(1)] have "quiet w w1" by (rule quiet_trans)
  then have "quiet w w2" using step_javascript_quiet [OF tests(2)] by (rule quiet_trans)
  then have "quiet w w3" using step_css_quiet [OF tests(3)] by (rule quiet_trans)
  then show ?thesis using step_tests_quiet [OF tests(5)] by (rule quiet_trans)
next
  case (ok h w1 j w2 c w3 t)
  from quiet_banner step_html_quiet [OF ok(1)] have "quiet w w1" by (rule quiet_trans)
  then have "quiet w w2" using step_javascript_quiet [OF ok(2)] by (rule quiet_trans)
  then have "quiet w w3" using step_css_quiet [OF ok(3)] by (rule quiet_trans)
  then show ?thesis using step_tests_quiet [OF ok(4)] by (rule quiet_trans)
qed

lemma config_loop_quiet: "config_loop E cs w = (r, w') \<Longrightarrow> quiet w w'"
proof (induction cs arbitrary: w)
  case Nil
  then show ?case by (simp add: quiet_refl)
next
  case (Cons c cs)
  from Cons.prems show ?case
  proof (cases rule: config_loop_Cons_cases)
    case (asking e)
    from call_llm_api_quiet [OF asking(2)] show ?thesis .
  next
    case (writing content w1 e)
    from call_llm_api_quiet [OF writing(2)] write_text_quiet [OF writing(3)]
    show ?thesis by (rule quiet_trans)
  next
    case (going content w1 w2)
    from call_llm_api_quiet [OF going(1)] write_text_quiet [OF going(2)]
    have "quiet w w2" by (rule quiet_trans)
    then show ?thesis using Cons.IH [OF going(3)] by (rule quiet_trans)
  qed
qed

lemma call_llm_api_posts:
  assumes "key_ok E" and "key = None \<or> key = environ E ''LLM_API_KEY''"
  shows "\<exists>q. fst (call_llm_api E prompt sm model key ep w) = post E (calls w) q"
proof -
  from assms(1) obtain k where k: "environ E ''LLM_API_KEY'' = Some k" "k \<noteq> []"
    by (auto simp: key_ok_def)
  define q where "q = \<lparr>req_url = or_default ep (DEFAULT_API_ENDPOINT E),
     req_authorization = ''Bearer '' @ k, req_model = or_default model (DEFAULT_MODEL E),
     req_system = sm, req_user = prompt, req_temperature = ''0.2'', req_max_tokens = 4000\<rparr>"
  have "fst (call_llm_api E prompt sm model key ep w) = post E (calls w) q"
    using assms(2) k
    by (cases "post E (calls w) q") (auto simp: call_llm_api_def Let_def falsy_def q_def)
  then show ?thesis ..
qed

lemma call_llm_api_runs:
  assumes "key_ok E" and "key = None \<or> key = environ E ''LLM_API_KEY''"
    and "\<forall>q. \<exists>raw. post E (calls w) q = Inr raw"
  shows "\<exists>raw. fst (call_llm_api E prompt sm model key ep w) = Inr raw"
  using call_llm_api_posts [OF assms(1,2), of prompt sm model ep w] assms(3) by metis

lemma write_text_runs:
  assumes "refuse E p = None" and "torn E p c = None"
  shows "write_text E p c w = (Inr (), w\<lparr>files := (files w)(p \<mapsto> c)\<rparr>)"
  using assms by (simp add: write_text_def)

lemma save_file_runs:
  "can_write E out \<Longrightarrow> fst (save_file E c out w) = Inr ()"
  by (simp add: can_write_def save_file_def write_text_runs thn_def)

lemma block_runs:
  assumes oc: "one_call E user sm gen" and key: "key_ok E"
    and ans: "\<forall>q. \<exists>raw. post E (calls w) q = Inr raw"
    and pr: "files w prompt_path = Some text" and cw: "can_write E out_path"
  shows "\<exists>a. fst (block E heading prompt_path gen out_path done w) = Inr a"
proof -
  let ?w1 = "print (''  Read prompt from: '' @ prompt_path) (print heading w)"
  from oc obtain msg where
    g: "gen (strip text) ?w1
          = call_llm_api E (user (strip text)) sm None None None (print msg ?w1)"
    by (auto simp: one_call_def)
  have "\<exists>raw. fst (call_llm_api E (user (strip text)) sm None None None (print msg ?w1)) = Inr raw"
    using ans by (intro call_llm_api_runs [OF key]) simp_all
  then obtain raw w2 where c: "gen (strip text) ?w1 = (Inr raw, w2)"
    unfolding g by (metis prod.collapse)
  obtain w3 where s: "save_file E (extract_code raw) out_path w2 = (Inr (), w3)"
    using save_file_runs [OF cw, of "extract_code raw" w2] by (metis prod.collapse)
  have "fst (block E heading prompt_path gen out_path done w) = Inr (extract_code raw)"
    using pr c s by (simp add: block_def read_prompt_file_def thn_def)
  then show ?thesis by blast
qed

lemma config_loop_step:
  assumes key: "key_ok E" and ans: "\<forall>q. post E (calls w) q = Inr r"
    and wr: "refuse E (fst c) = None" "torn E (fst c) r = None"
  shows "\<exists>w1. config_loop E (c # cs) w = config_loop E cs w1
     \<and> files w1 = (files w)(fst c \<mapsto> r) \<and> length (calls w1) = length (calls w) + 1"
proof -
  obtain r1 w1 where c1:
    "call_llm_api E (snd c) config_system_message (Some (DEFAULT_MODEL E))
       (environ E ''LLM_API_KEY'') None w = (r1, w1)"
    by (cases "call_llm_api E (snd c) config_system_message (Some (DEFAULT_MODEL E))
       (environ E ''LLM_API_KEY'') None w")
  from config_call [OF key c1] ans have r1: "r1 = Inr r" and f1: "files w1 = files w"
    and l1: "length (calls w1) = length (calls w) + 1" by auto
  let ?w2 = "w1\<lparr>files := (files w1)(fst c \<mapsto> r)\<rparr>"
  have "config_loop E (c # cs) w = config_loop E cs ?w2"
    using c1 r1 write_text_runs [OF wr] by (simp add: Let_def)
  moreover have "files ?w2 = (files w)(fst c \<mapsto> r)" using f1 by simp
  moreover have "length (calls ?w2) = length (calls w) + 1" using l1 by simp
  ultimately show ?thesis by blast
qed

lemma config_loop_runs:
  assumes key: "key_ok E" and ans: "\<forall>h q. \<exists>raw. post E h q = Inr raw"
    and wr: "\<forall>c \<in> set cs. refuse E (fst c) = None \<and> (\<forall>text. torn E (fst c) text = None)"
  shows "fst (config_loop E cs w) = Inr ()"
  using wr
proof (induction cs arbitrary: w)
  case Nil
  then show ?case by simp
next
  case (Cons c cs)
  obtain r1 w1 where c1:
    "call_llm_api E (snd c) config_system_message (Some (DEFAULT_MODEL E))
       (environ E ''LLM_API_KEY'') None w = (r1, w1)"
    by (cases "call_llm_api E (snd c) config_system_message (Some (DEFAULT_MODEL E))
       (environ E ''LLM_API_KEY'') None w")
  from config_call [OF key c1] ans obtain raw where r1: "r1 = Inr raw" by metis
  from Cons.prems have r: "refuse E (fst c) = None" "torn E (fst c) raw = None"
    and rest: "\<forall>c \<in> set cs. refuse E (fst c) = None \<and> (\<forall>text. torn E (fst c) text = None)"
    by simp_all
  show ?case using c1 r1 write_text_runs [OF r] Cons.IH [OF rest] by (simp add: Let_def)
qed

lemma config_loop_stops:
  assumes key: "key_ok E" and ans: "\<forall>q. post E (calls w) q = Inl e"
  shows "fst (config_loop E (c # cs) w) = Inl e
     \<and> files (snd (config_loop E (c # cs) w)) = files w
     \<and> length (calls (snd (config_loop E (c # cs) w))) = length (calls w) + 1"
proof -
  obtain r1 w1 where c1:
    "call_llm_api E (snd c) config_system_message (Some (DEFAULT_MODEL E))
       (environ E ''LLM_API_KEY'') None w = (r1, w1)"
    by (cases "call_llm_api E (snd c) config_system_message (Some (DEFAULT_MODEL E))
       (environ E ''LLM_API_KEY'') None w")
  from config_call [OF key c1] ans have "r1 = Inl e" "files w1 = files w"
    "length (calls w1) = length (calls w) + 1" by auto
  with c1 show ?thesis by (simp add: Let_def)
qed

lemma primary_stages_tag:
  assumes "primary_stages E w = (Inl (k, e), w')"
  shows "k \<noteq> Auxiliary"
  using assms by (cases rule: primary_stages_cases) auto

lemma primary_runs:
  assumes key: "key_ok E"
    and ans: "\<forall>h q. length h < length (calls w) + 4 \<longrightarrow> (\<exists>raw. post E h q = Inr raw)"
    and p1: "files w ui_prompt_path = Some t1" and p2: "files w logic_prompt_path = Some t2"
    and p3: "files w style_prompt_path = Some t3" and p4: "files w test_prompt_path = Some t4"
    and c1: "can_write E html_path" and c2: "can_write E js_path"
    and c3: "can_write E css_path" and c4: "can_write E test_path"
  shows "\<exists>arts. fst (primary_stages E w) = Inr arts"
proof -
  have "\<exists>a. fst (step_html E (banner E w)) = Inr a"
    unfolding step_html_block using ans p1
    by (intro block_runs [OF one_call_html key _ _ c1]) simp_all
  then obtain h w1 where s1: "step_html E (banner E w) = (Inr h, w1)"
    by (metis prod.collapse)
  from step_html_success [OF s1]
  have 1: "length (calls w1) = length (calls w) + 1" "files w1 = (files w)(html_path \<mapsto> h)"
    by auto
  have "\<exists>a. fst (step_javascript E h w1) = Inr a"
    unfolding step_javascript_block using ans p2 1
    by (intro block_runs [OF one_call_javascript key _ _ c2]) (simp_all add: paths)
  then obtain j w2 where s2: "step_javascript E h w1 = (Inr j, w2)"
    by (metis prod.collapse)
  from step_javascript_success [OF s2]
  have 2: "length (calls w2) = length (calls w1) + 1" "files w2 = (files w1)(js_path \<mapsto> j)"
    by auto
  have "\<exists>a. fst (step_css E h j w2) = Inr a"
    unfolding step_css_block using ans p3 1 2
    by (intro block_runs [OF one_call_css key _ _ c3]) (simp_all add: paths)
  then obtain c w3 where s3: "step_css E h j w2 = (Inr c, w3)"
    by (metis prod.collapse)
  from step_css_success [OF s3]
  have 3: "length (calls w3) = length (calls w2) + 1" "files w3 = (files w2)(css_path \<mapsto> c)"
    by auto
  have "\<exists>a. fst (step_tests E h j c w3) = Inr a"
    unfolding step_tests_block using ans p4 1 2 3
    by (intro block_runs [OF one_call_tests key _ _ c4]) (simp_all add: paths)
  then obtain t w4 where s4: "step_tests E h j c w3 = (Inr t, w4)"
    by (metis prod.collapse)
  have "primary_stages E w = (Inr (h, j, c, t), w4)"
    by (simp add: primary_stages_def s1 s2 s3 s4 thn_Inr at_simps)
  then show ?thesis by simp
qed

lemma main_try_of_failure:
  "primary_stages E w = (Inl ke, w1) \<Longrightarrow> main_try E w = (Inl ke, w1)"
  by (simp add: main_try_primary thn_Inl)

lemma main_try_of_success:
  "primary_stages E w = (Inr arts, w4) \<Longrightarrow>
   main_try E w = thn (at Auxiliary (generate_config_files E w4)) (\<lambda>_ w5. (Inr (), summary w5))"
  by (simp add: main_try_primary thn_Inr)

lemma main_try_cases:
  assumes "main_try E w = (r, w')"
  obtains
    (primary) k e where "r = Inl (k, e)" and "k \<noteq> Auxiliary"
      and "primary_stages E w = (Inl (k, e), w')"
  | (auxiliary) arts w4 e where "r = Inl (Auxiliary, e)"
      and "primary_stages E w = (Inr arts, w4)" and "generate_config_files E w4 = (Inl e, w')"
  | (completed) arts w4 w5 where "r = Inr ()"
      and "primary_stages E w = (Inr arts, w4)" and "generate_config_files E w4 = (Inr (), w5)"
      and "w' = summary w5"
proof -
  obtain r0 w0 where p: "primary_stages E w = (r0, w0)" by (cases "primary_stages E w")
  show thesis
  proof (cases r0)
    case (Inl ke)
    obtain k e where ke: "ke = (k, e)" by (cases ke)
    from p Inl ke have pk: "primary_stages E w = (Inl (k, e), w0)" by simp
    from main_try_of_failure [OF pk] assms have "r = Inl (k, e)" "w' = w0" by simp_all
    with primary_stages_tag [OF pk] pk primary show thesis by simp
  next
    case (Inr arts)
    with p have pa: "primary_stages E w = (Inr arts, w0)" by simp
    obtain r1 w1 where g: "generate_config_files E w0 = (r1, w1)"
      by (cases "generate_config_files E w0")
    show thesis
    proof (cases r1)
      case (Inl e)
      with main_try_of_success [OF pa] g assms have "r = Inl (Auxiliary, e)" "w' = w1"
        by (simp_all add: thn_Inl at_simps)
      with pa g Inl auxiliary show thesis by simp
    next
      case (Inr u)
      with main_try_of_success [OF pa] g assms have "r = Inr ()" "w' = summary w1"
        by (simp_all add: thn_Inr at_simps)
      with pa g Inr completed show thesis by simp
    qed
  qed
qed

lemma main_ignores_args: "main E a w = main E a' w"
  by (simp add: main_def)

lemma main_exit: "fst (main E a w) = 0 \<or> fst (main E a w) = 1"
  by (auto simp: main_def uncaught_def split: sum.splits prod.splits)

lemma main_reaches_try:
  assumes "makedirs E OUTPUT_DIR = Inr ()" and "makedirs E (joinpath OUTPUT_DIR ''tests'') = Inr ()"
  shows "main E a w =
     (case main_try E w of
        (Inl (k, e), w1) \<Rightarrow> (1, print (''\<newline>Error during code generation: '' @ error_str e) w1)
      | (Inr _, w1) \<Rightarrow> (0, w1))"
  using assms by (simp add: main_def)

lemma main_world:
  assumes "makedirs E OUTPUT_DIR = Inr ()" and "makedirs E (joinpath OUTPUT_DIR ''tests'') = Inr ()"
  shows "files (snd (main E a w)) = files (snd (main_try E w))"
    and "calls (snd (main E a w)) = calls (snd (main_try E w))"
    and "stderr (snd (main E a w)) = stderr (snd (main_try E w))"
  by (auto simp: main_reaches_try [OF assms] split: prod.splits sum.splits)

lemma main_zero:
  assumes "fst (main E a w) = 0"
  shows "makedirs E OUTPUT_DIR = Inr () \<and> makedirs E (joinpath OUTPUT_DIR ''tests'') = Inr ()
     \<and> main_try E w = (Inr (), snd (main E a w))"
  using assms
  by (auto simp: main_def uncaught_def split: sum.splits prod.splits)

lemma config_call_request:
  assumes "call_llm_api E prompt config_system_message (Some (DEFAULT_MODEL E))
       (environ E ''LLM_API_KEY'') None w = (r, w')"
  shows "calls w' = calls w \<and> (\<exists>e. r = Inl e)
     \<or> (\<exists>q. calls w' = calls w @ [q] \<and> default_request E q
            \<and> req_system q = config_system_message \<and> req_user q = prompt)"
  using call_llm_api_calls [OF assms]
  by (auto simp: default_request_def or_default_def)

lemma config_loop_requests:
  "config_loop E cs w = (r, w') \<Longrightarrow>
     \<exists>qs. calls w' = calls w @ qs \<and> length qs \<le> length cs
       \<and> (r = Inr () \<longrightarrow> length qs = length cs)
       \<and> (\<forall>q \<in> set qs. default_request E q \<and> req_system q = config_system_message)"
proof (induction cs arbitrary: w)
  case Nil
  then show ?case by simp
next
  case (Cons c cs)
  from Cons.prems show ?case
  proof (cases rule: config_loop_Cons_cases)
    case (asking e)
    from config_call_request [OF asking(2)]
    have "(calls w' = calls w @ [] \<or> (\<exists>q. calls w' = calls w @ [q] \<and> default_request E q
            \<and> req_system q = config_system_message))" by auto
    with asking(1) show ?thesis by (elim disjE exE conjE) force+
  next
    case (writing content w1 e)
    from config_call_request [OF writing(2)] obtain q where q: "calls w1 = calls w @ [q]"
      "default_request E q" "req_system q = config_system_message" by auto
    from write_text_cases [OF writing(3)] have "calls w' = calls w1" by simp
    with q writing(1) show ?thesis by force
  next
    case (going content w1 w2)
    from config_call_request [OF going(1)] obtain q where q: "calls w1 = calls w @ [q]"
      "default_request E q" "req_system q = config_system_message" by auto
    from write_text_cases [OF going(2)] have c2: "calls w2 = calls w1" by simp
    from Cons.IH [OF going(3)] obtain qs where
      qs: "calls w' = calls w2 @ qs" "length qs \<le> length cs"
        "r = Inr () \<longrightarrow> length qs = length cs"
        "\<forall>q \<in> set qs. default_request E q \<and> req_system q = config_system_message"
      by auto
    have "calls w' = calls w @ (q # qs) \<and> length (q # qs) \<le> length (c # cs)
       \<and> (r = Inr () \<longrightarrow> length (q # qs) = length (c # cs))
       \<and> (\<forall>x \<in> set (q # qs). default_request E x \<and> req_system x = config_system_message)"
      using q qs c2 by simp
    then show ?thesis by blast
  qed
qed

lemma map_constant: "\<forall>x \<in> set xs. f x = c \<Longrightarrow> map f xs = replicate (length xs) c"
  by (induction xs) simp_all

lemma config_names: "distinct (map fst config_files)"
  "html_path \<notin> fst ` set config_files" "js_path \<notin> fst ` set config_files"
  "css_path \<notin> fst ` set config_files" "test_path \<notin> fst ` set config_files"
  by (simp_all add: config_files_def paths)

lemma primary_key:
  assumes "primary_stages E w = (Inr arts, w4)"
  shows "key_ok E"
  using assms
proof (cases rule: primary_stages_cases)
  case (ok h w1 j w2 c w3 t)
  let ?w0 = "print ''\<newline>[STEP 1/4] Generating HTML from UI prompt'' (banner E w)"
  from ok(1) obtain p raw w' where
    "generate_html E p (print (''  Read prompt from: '' @ ui_prompt_path) ?w0) = (Inr raw, w')"
    by (auto simp: step_html_def thn_def Let_def split: sum.splits prod.splits)
  then show ?thesis
    unfolding generate_html_def Let_def by (rule call_llm_api_key)
qed simp_all


lemma main_auxiliary_failure:
  assumes d1: "makedirs E OUTPUT_DIR = Inr ()"
    and d2: "makedirs E (joinpath OUTPUT_DIR ''tests'') = Inr ()"
    and mt: "fst (main_try E w) = Inl (Auxiliary, e)"
  shows "fst (main E a w) = 1
    \<and> (\<exists>q1 q2 q3 q4 r1 r2 r3 r4 written c rest qs q.
          config_files = written @ c # rest
        \<and> calls (snd (main E a w)) = calls w @ [q1, q2, q3, q4] @ qs @ [q]
        \<and> post E (calls w) q1 = Inr r1 \<and> post E (calls w @ [q1]) q2 = Inr r2
        \<and> post E (calls w @ [q1, q2]) q3 = Inr r3 \<and> post E (calls w @ [q1, q2, q3]) q4 = Inr r4
        \<and> files (snd (main E a w)) html_path = Some (extract_code r1)
        \<and> files (snd (main E a w)) js_path = Some (extract_code r2)
        \<and> files (snd (main E a w)) css_path = Some (extract_code r3)
        \<and> files (snd (main E a w)) test_path = Some (extract_code r4)
        \<and> map req_user (qs @ [q]) = map snd (written @ [c])
        \<and> (\<forall>i < length written.
              \<exists>r. post E (calls w @ [q1, q2, q3, q4] @ take i qs) (qs ! i) = Inr r
                \<and> files (snd (main E a w)) (fst (written ! i)) = Some r)
        \<and> (post E (calls w @ [q1, q2, q3, q4] @ qs) q = Inl e
              \<and> files (snd (main E a w)) (fst c) = files w (fst c)
           \<or> (\<exists>r m. post E (calls w @ [q1, q2, q3, q4] @ qs) q = Inr r
                \<and> refuse E (fst c) = Some m \<and> e = OSError m
                \<and> files (snd (main E a w)) (fst c) = files w (fst c))
           \<or> (\<exists>r n m. post E (calls w @ [q1, q2, q3, q4] @ qs) q = Inr r
                \<and> refuse E (fst c) = None \<and> torn E (fst c) r = Some (n, m)
                \<and> e = WriteError m
                \<and> files (snd (main E a w)) (fst c) = Some (take n r)))
        \<and> (\<forall>x \<in> set rest. files (snd (main E a w)) (fst x) = files w (fst x)))
    \<and> (\<exists>ls. stdout (snd (main E a w))
            = stdout w @ ls @ [''\<newline>Error during code generation: '' @ error_str e]
          \<and> success_line \<notin> set ls)
    \<and> stderr (snd (main E a w)) = stderr w"
proof -
  obtain w5 where m: "main_try E w = (Inl (Auxiliary, e), w5)"
    using mt by (metis prod.collapse)
  from m obtain arts w4 where p: "primary_stages E w = (Inr arts, w4)"
    and g: "generate_config_files E w4 = (Inl e, w5)"
    by (cases rule: main_try_cases) auto
  obtain h j c t where arts: "arts = (h, j, c, t)" by (cases arts)
  have r: "main E a w = (1, print (''\<newline>Error during code generation: '' @ error_str e) w5)"
    by (simp add: main_reaches_try [OF d1 d2] m)
  have w': "files (snd (main E a w)) = files w5" "calls (snd (main E a w)) = calls w5"
    "stderr (snd (main E a w)) = stderr w5" by (simp_all add: r)
  from primary_success [OF p [unfolded arts]] obtain q1 q2 q3 q4 r1 r2 r3 r4 where
    ps: "calls w4 = calls w @ [q1, q2, q3, q4]"
      "post E (calls w) q1 = Inr r1" "post E (calls w @ [q1]) q2 = Inr r2"
      "post E (calls w @ [q1, q2]) q3 = Inr r3" "post E (calls w @ [q1, q2, q3]) q4 = Inr r4"
      "h = extract_code r1" "j = extract_code r2" "c = extract_code r3" "t = extract_code r4"
      "files w4 = (files w)(html_path \<mapsto> h, js_path \<mapsto> j, css_path \<mapsto> c, test_path \<mapsto> t)"
      "stderr w4 = stderr w"
    by blast
  from g have cl: "config_loop E config_files w4 = (Inl e, w5)"
    by (simp add: generate_config_files_def)
  from config_loop_frame [OF cl]
  have fr: "stderr w5 = stderr w4" "\<forall>p. p \<notin> fst ` set config_files \<longrightarrow> files w5 p = files w4 p"
    by blast+
  have prim: "files w5 html_path = Some (extract_code r1)" "files w5 js_path = Some (extract_code r2)"
    "files w5 css_path = Some (extract_code r3)" "files w5 test_path = Some (extract_code r4)"
    using fr(2) config_names ps(6-10) by (simp_all add: paths)
  have same: "\<And>x. x \<in> set config_files \<Longrightarrow> files w4 (fst x) = files w (fst x)"
  proof -
    fix x :: "string \<times> string" assume "x \<in> set config_files"
    then have "fst x \<in> fst ` set config_files" by (rule imageI)
    then have "fst x \<noteq> html_path" "fst x \<noteq> js_path" "fst x \<noteq> css_path" "fst x \<noteq> test_path"
      using config_names(2-5) by metis+
    then show "files w4 (fst x) = files w (fst x)" using ps(10) by simp
  qed
  from config_loop_failure [OF primary_key [OF p] cl config_names(1)]
  obtain written c' rest qs q where
    cf: "config_files = written @ c' # rest"
      "calls w5 = calls w4 @ qs @ [q]"
      "map req_user (qs @ [q]) = map snd (written @ [c'])"
      "\<forall>i < length written. \<exists>r. post E (calls w4 @ take i qs) (qs ! i) = Inr r
             \<and> files w5 (fst (written ! i)) = Some r"
      "post E (calls w4 @ qs) q = Inl e \<and> files w5 (fst c') = files w4 (fst c')
          \<or> (\<exists>r m. post E (calls w4 @ qs) q = Inr r \<and> refuse E (fst c') = Some m
                \<and> e = OSError m \<and> files w5 (fst c') = files w4 (fst c'))
          \<or> (\<exists>r n m. post E (calls w4 @ qs) q = Inr r \<and> refuse E (fst c') = None
                \<and> torn E (fst c') r = Some (n, m) \<and> e = WriteError m
                \<and> files w5 (fst c') = Some (take n r))"
      "\<forall>x \<in> set rest. files w5 (fst x) = files w4 (fst x)"
    by blast
  have c_in: "c' \<in> set config_files" and rest_in: "\<And>x. x \<in> set rest \<Longrightarrow> x \<in> set config_files"
    by (simp_all add: cf(1))
  have hist: "\<And>ys. calls w4 @ ys = calls w @ [q1, q2, q3, q4] @ ys" by (simp add: ps(1))
  have B: "calls (snd (main E a w)) = calls w @ [q1, q2, q3, q4] @ qs @ [q]"
    unfolding w' cf(2) by (rule hist)
  have D: "\<forall>i < length written.
        \<exists>r. post E (calls w @ [q1, q2, q3, q4] @ take i qs) (qs ! i) = Inr r
          \<and> files (snd (main E a w)) (fst (written ! i)) = Some r"
    using cf(4) unfolding w' hist .
  have F: "post E (calls w @ [q1, q2, q3, q4] @ qs) q = Inl e
              \<and> files (snd (main E a w)) (fst c') = files w (fst c')
           \<or> (\<exists>r m. post E (calls w @ [q1, q2, q3, q4] @ qs) q = Inr r
                \<and> refuse E (fst c') = Some m \<and> e = OSError m
                \<and> files (snd (main E a w)) (fst c') = files w (fst c'))
           \<or> (\<exists>r n m. post E (calls w @ [q1, q2, q3, q4] @ qs) q = Inr r
                \<and> refuse E (fst c') = None \<and> torn E (fst c') r = Some (n, m)
                \<and> e = WriteError m
                \<and> files (snd (main E a w)) (fst c') = Some (take n r))"
    using cf(5) unfolding w' hist same [OF c_in] .
  have G: "\<forall>x \<in> set rest. files (snd (main E a w)) (fst x) = files w (fst x)"
  proof
    fix x assume x: "x \<in> set rest"
    with cf(6) have "files w5 (fst x) = files w4 (fst x)" by blast
    with same [OF rest_in [OF x]] show "files (snd (main E a w)) (fst x) = files w (fst x)"
      by (simp add: w')
  qed
  have P: "files (snd (main E a w)) html_path = Some (extract_code r1)"
    "files (snd (main E a w)) js_path = Some (extract_code r2)"
    "files (snd (main E a w)) css_path = Some (extract_code r3)"
    "files (snd (main E a w)) test_path = Some (extract_code r4)"
    by (simp_all add: w' prim)
  have A: "\<exists>q1 q2 q3 q4 r1 r2 r3 r4 written c rest qs q.
          config_files = written @ c # rest
        \<and> calls (snd (main E a w)) = calls w @ [q1, q2, q3, q4] @ qs @ [q]
        \<and> post E (calls w) q1 = Inr r1 \<and> post E (calls w @ [q1]) q2 = Inr r2
        \<and> post E (calls w @ [q1, q2]) q3 = Inr r3 \<and> post E (calls w @ [q1, q2, q3]) q4 = Inr r4
        \<and> files (snd (main E a w)) html_path = Some (extract_code r1)
        \<and> files (snd (main E a w)) js_path = Some (extract_code r2)
        \<and> files (snd (main E a w)) css_path = Some (extract_code r3)
        \<and> files (snd (main E a w)) test_path = Some (extract_code r4)
        \<and> map req_user (qs @ [q]) = map snd (written @ [c])
        \<and> (\<forall>i < length written.
              \<exists>r. post E (calls w @ [q1, q2, q3, q4] @ take i qs) (qs ! i) = Inr r
                \<and> files (snd (main E a w)) (fst (written ! i)) = Some r)
        \<and> (post E (calls w @ [q1, q2, q3, q4] @ qs) q = Inl e
              \<and> files (snd (main E a w)) (fst c) = files w (fst c)
           \<or> (\<exists>r m. post E (calls w @ [q1, q2, q3, q4] @ qs) q = Inr r
                \<and> refuse E (fst c) = Some m \<and> e = OSError m
                \<and> files (snd (main E a w)) (fst c) = files w (fst c))
           \<or> (\<exists>r n m. post E (calls w @ [q1, q2, q3, q4] @ qs) q = Inr r
                \<and> refuse E (fst c) = None \<and> torn E (fst c) r = Some (n, m)
                \<and> e = WriteError m
                \<and> files (snd (main E a w)) (fst c) = Some (take n r)))
        \<and> (\<forall>x \<in> set rest. files (snd (main E a w)) (fst x) = files w (fst x))"
    using cf(1) B ps(2-5) P cf(3) D F G by blast
  from primary_stages_quiet [OF p] config_loop_quiet [OF cl] have "quiet w w5"
    by (rule quiet_trans)
  then obtain ls where ls: "stdout w5 = stdout w @ ls" "success_line \<notin> set ls"
    by (auto simp: quiet_def)
  have C: "\<exists>ls. stdout (snd (main E a w))
            = stdout w @ ls @ [''\<newline>Error during code generation: '' @ error_str e]
          \<and> success_line \<notin> set ls"
    using ls unfolding r by (intro exI [of _ ls]) simp
  have S: "stderr (snd (main E a w)) = stderr w" using fr(1) ps(11) by (simp add: r)
  have "fst (main E a w) = 1" by (simp add: r)
  with A C S show ?thesis by blast
qed

lemma main_success:
  assumes "fst (main E a w) = 0"
  shows "\<exists>t1 t2 t3 t4 r1 r2 r3 r4 q1 q2 q3 q4 qs.
      files w ui_prompt_path = Some t1 \<and> files w logic_prompt_path = Some t2
    \<and> files w style_prompt_path = Some t3 \<and> files w test_prompt_path = Some t4
    \<and> calls (snd (main E a w)) = calls w @ [q1, q2, q3, q4] @ qs
    \<and> post E (calls w) q1 = Inr r1 \<and> post E (calls w @ [q1]) q2 = Inr r2
    \<and> post E (calls w @ [q1, q2]) q3 = Inr r3 \<and> post E (calls w @ [q1, q2, q3]) q4 = Inr r4
    \<and> req_user q1 = html_instruction @ ''\<newline>\<newline>'' @ strip t1
    \<and> req_user q2 = javascript_request_context (extract_code r1) @ ''\<newline>'' @ strip t2
    \<and> req_user q3 = css_request_context (extract_code r1) (extract_code r2) @ ''\<newline>'' @ strip t3
    \<and> req_user q4 = tests_request_context (extract_code r1) (extract_code r2) (extract_code r3)
          @ ''\<newline>'' @ strip t4
    \<and> req_system q1 = default_system_message \<and> req_system q2 = javascript_instruction
    \<and> req_system q3 = css_instruction \<and> req_system q4 = tests_instruction
    \<and> default_request E q1 \<and> default_request E q2
    \<and> default_request E q3 \<and> default_request E q4
    \<and> length qs = 3
    \<and> (\<forall>q \<in> set qs. default_request E q \<and> req_system q = config_system_message)
    \<and> files (snd (main E a w)) html_path = Some (extract_code r1)
    \<and> files (snd (main E a w)) js_path = Some (extract_code r2)
    \<and> files (snd (main E a w)) css_path = Some (extract_code r3)
    \<and> files (snd (main E a w)) test_path = Some (extract_code r4)
    \<and> stderr (snd (main E a w)) = stderr w"
proof -
  from main_zero [OF assms] have m: "main_try E w = (Inr (), snd (main E a w))" by simp
  from m obtain arts w4 w5 where p: "primary_stages E w = (Inr arts, w4)"
    and g: "generate_config_files E w4 = (Inr (), w5)" and w': "snd (main E a w) = summary w5"
    by (cases rule: main_try_cases) auto
  obtain h j c t where arts: "arts = (h, j, c, t)" by (cases arts)
  from primary_success [OF p [unfolded arts]] obtain t1 t2 t3 t4 r1 r2 r3 r4 q1 q2 q3 q4 where
    ps: "files w ui_prompt_path = Some t1" "files w logic_prompt_path = Some t2"
      "files w style_prompt_path = Some t3" "files w test_prompt_path = Some t4"
      "calls w4 = calls w @ [q1, q2, q3, q4]"
      "post E (calls w) q1 = Inr r1" "post E (calls w @ [q1]) q2 = Inr r2"
      "post E (calls w @ [q1, q2]) q3 = Inr r3" "post E (calls w @ [q1, q2, q3]) q4 = Inr r4"
      "req_user q1 = html_instruction @ ''\<newline>\<newline>'' @ strip t1"
      "req_user q2 = javascript_request_context h @ ''\<newline>'' @ strip t2"
      "req_user q3 = css_request_context h j @ ''\<newline>'' @ strip t3"
      "req_user q4 = tests_request_context h j c @ ''\<newline>'' @ strip t4"
      "req_system q1 = default_system_message" "req_system q2 = javascript_instruction"
      "req_system q3 = css_instruction" "req_system q4 = tests_instruction"
      "default_request E q1" "default_request E q2" "default_request E q3" "default_request E q4"
      "h = extract_code r1" "j = extract_code r2" "c = extract_code r3" "t = extract_code r4"
      "files w4 = (files w)(html_path \<mapsto> h, js_path \<mapsto> j, css_path \<mapsto> c, test_path \<mapsto> t)"
      "stderr w4 = stderr w"
    by blast
  from g have cl: "config_loop E config_files w4 = (Inr (), w5)"
    by (simp add: generate_config_files_def)
  from config_loop_frame [OF cl]
  have fr: "stderr w5 = stderr w4" "\<forall>p. p \<notin> fst ` set config_files \<longrightarrow> files w5 p = files w4 p"
    by blast+
  from config_loop_requests [OF cl] obtain qs where
    qs: "calls w5 = calls w4 @ qs" "length qs = length config_files"
      "\<forall>q \<in> set qs. default_request E q \<and> req_system q = config_system_message"
    by auto
  have len: "length qs = 3" using qs(2) by (simp add: config_files_def)
  have fc: "calls (snd (main E a w)) = calls w @ [q1, q2, q3, q4] @ qs"
    by (simp add: w' ps(5) qs(1))
  have w4f: "files w4 html_path = Some h" "files w4 js_path = Some j"
    "files w4 css_path = Some c" "files w4 test_path = Some t"
    by (simp_all add: ps(26) paths)
  have ff: "files (snd (main E a w)) html_path = Some (extract_code r1)"
    "files (snd (main E a w)) js_path = Some (extract_code r2)"
    "files (snd (main E a w)) css_path = Some (extract_code r3)"
    "files (snd (main E a w)) test_path = Some (extract_code r4)"
    using fr(2) config_names(2-5) w4f ps(22-25) by (simp_all add: w')
  have se: "stderr (snd (main E a w)) = stderr w" by (simp add: w' fr(1) ps(27))
  show ?thesis
    using ps(1-4) fc ps(6-9) ps(10-13) [unfolded ps(22-25)] ps(14-21) len qs(3) ff se
    by blast
qed

lemma main_runs:
  assumes key: "key_ok E" and ans: "\<forall>h q. \<exists>raw. post E h q = Inr raw"
    and d1: "makedirs E OUTPUT_DIR = Inr ()"
    and d2: "makedirs E (joinpath OUTPUT_DIR ''tests'') = Inr ()"
    and p1: "files w ui_prompt_path = Some t1" and p2: "files w logic_prompt_path = Some t2"
    and p3: "files w style_prompt_path = Some t3" and p4: "files w test_prompt_path = Some t4"
    and c1: "can_write E html_path" and c2: "can_write E js_path"
    and c3: "can_write E css_path" and c4: "can_write E test_path"
    and cc: "\<forall>c \<in> set config_files.
        refuse E (fst c) = None \<and> (\<forall>text. torn E (fst c) text = None)"
  shows "fst (main E a w) = 0"
proof -
  have "\<exists>arts. fst (primary_stages E w) = Inr arts"
    using ans by (intro primary_runs [OF key _ p1 p2 p3 p4 c1 c2 c3 c4]) simp
  then obtain arts w4 where p: "primary_stages E w = (Inr arts, w4)"
    by (metis prod.collapse)
  have "fst (generate_config_files E w4) = Inr ()"
    unfolding generate_config_files_def by (rule config_loop_runs [OF key ans cc])
  then obtain w5 where g: "generate_config_files E w4 = (Inr (), w5)"
    by (metis prod.collapse)
  have "main_try E w = (Inr (), summary w5)"
    by (simp add: main_try_of_success [OF p] g thn_Inr at_simps)
  then show ?thesis by (simp add: main_reaches_try [OF d1 d2])
qed



lemma main_try_auxiliary_fails:
  assumes key: "key_ok E"
    and ans: "\<forall>h q. length h < length (calls w) + 4 \<longrightarrow> (\<exists>raw. post E h q = Inr raw)"
    and bad: "\<forall>h q. length h = length (calls w) + 4 \<longrightarrow> post E h q = Inl e"
    and p1: "files w ui_prompt_path = Some t1" and p2: "files w logic_prompt_path = Some t2"
    and p3: "files w style_prompt_path = Some t3" and p4: "files w test_prompt_path = Some t4"
    and c1: "can_write E html_path" and c2: "can_write E js_path"
    and c3: "can_write E css_path" and c4: "can_write E test_path"
  shows "fst (main_try E w) = Inl (Auxiliary, e)
     \<and> (\<forall>c \<in> set config_files. files (snd (main_try E w)) (fst c) = files w (fst c))
     \<and> length (calls (snd (main_try E w))) = length (calls w) + 5"
proof -
  from primary_runs [OF key ans p1 p2 p3 p4 c1 c2 c3 c4]
  obtain arts w4 where p: "primary_stages E w = (Inr arts, w4)"
    by (metis prod.collapse)
  obtain h j c t where arts: "arts = (h, j, c, t)" by (cases arts)
  from primary_success [OF p [unfolded arts]] obtain q1 q2 q3 q4 where
    ps: "calls w4 = calls w @ [q1, q2, q3, q4]"
      "files w4 = (files w)(html_path \<mapsto> h, js_path \<mapsto> j, css_path \<mapsto> c, test_path \<mapsto> t)"
    by blast
  have b4: "\<forall>q. post E (calls w4) q = Inl e" using bad ps(1) by simp
  obtain c0 cs0 where cf: "config_files = c0 # cs0" by (simp add: config_files_def)
  have st: "fst (config_loop E config_files w4) = Inl e"
    "files (snd (config_loop E config_files w4)) = files w4"
    "length (calls (snd (config_loop E config_files w4))) = length (calls w4) + 1"
    unfolding cf using config_loop_stops [OF key b4, of c0 cs0] by blast+
  obtain w5 where g: "generate_config_files E w4 = (Inl e, w5)" and f5: "files w5 = files w4"
    and l5: "length (calls w5) = length (calls w4) + 1"
    using st unfolding generate_config_files_def by (metis prod.collapse snd_conv)
  have m: "main_try E w = (Inl (Auxiliary, e), w5)"
    by (simp add: main_try_of_success [OF p] g thn_Inl at_simps)
  have "\<forall>c \<in> set config_files. files w5 (fst c) = files w (fst c)"
    by (simp add: f5 ps(2) config_files_def paths)
  moreover have "length (calls w5) = length (calls w) + 5" using l5 ps(1) by simp
  ultimately show ?thesis using m by simp
qed

lemma main_try_second_auxiliary_fails:
  assumes key: "key_ok E"
    and ans: "\<forall>h q. length h < length (calls w) + 4 \<longrightarrow> (\<exists>raw. post E h q = Inr raw)"
    and a5: "\<forall>h q. length h = length (calls w) + 4 \<longrightarrow> post E h q = Inr r"
    and bad: "\<forall>h q. length h = length (calls w) + 5 \<longrightarrow> post E h q = Inl e"
    and p1: "files w ui_prompt_path = Some t1" and p2: "files w logic_prompt_path = Some t2"
    and p3: "files w style_prompt_path = Some t3" and p4: "files w test_prompt_path = Some t4"
    and c1: "can_write E html_path" and c2: "can_write E js_path"
    and c3: "can_write E css_path" and c4: "can_write E test_path"
    and wr: "refuse E ''babel.config.js'' = None" "torn E ''babel.config.js'' r = None"
  shows "fst (main_try E w) = Inl (Auxiliary, e)
     \<and> files (snd (main_try E w)) ''babel.config.js'' = Some r
     \<and> files (snd (main_try E w)) ''jest.config.js'' = files w ''jest.config.js''
     \<and> files (snd (main_try E w)) ''package.json'' = files w ''package.json''"
proof -
  from primary_runs [OF key ans p1 p2 p3 p4 c1 c2 c3 c4]
  obtain arts w4 where p: "primary_stages E w = (Inr arts, w4)"
    by (metis prod.collapse)
  obtain h j c t where arts: "arts = (h, j, c, t)" by (cases arts)
  from primary_success [OF p [unfolded arts]] obtain q1 q2 q3 q4 where
    ps: "calls w4 = calls w @ [q1, q2, q3, q4]"
      "files w4 = (files w)(html_path \<mapsto> h, js_path \<mapsto> j, css_path \<mapsto> c, test_path \<mapsto> t)"
    by blast
  let ?babel = "(''babel.config.js'',
       ''Generate a babel configuration file for a JavaScript project using Jest for testing.'')"
  obtain c1 cs1 where cf: "config_files = ?babel # c1 # cs1" by (simp add: config_files_def)
  have a4: "\<forall>q. post E (calls w4) q = Inr r" using a5 ps(1) by simp
  from config_loop_step [OF key a4, of ?babel "c1 # cs1"] wr
  obtain w5 where s5: "config_loop E config_files w4 = config_loop E (c1 # cs1) w5"
    and f5: "files w5 = (files w4)(''babel.config.js'' \<mapsto> r)"
    and l5: "length (calls w5) = length (calls w4) + 1"
    unfolding cf by auto
  have b5: "\<forall>q. post E (calls w5) q = Inl e" using bad l5 ps(1) by simp
  have st: "fst (config_loop E config_files w4) = Inl e"
    "files (snd (config_loop E config_files w4)) = files w5"
    unfolding s5 using config_loop_stops [OF key b5, of c1 cs1] by blast+
  obtain w6 where g: "generate_config_files E w4 = (Inl e, w6)" and f6: "files w6 = files w5"
    using st unfolding generate_config_files_def by (metis prod.collapse snd_conv)
  have m: "main_try E w = (Inl (Auxiliary, e), w6)"
    by (simp add: main_try_of_success [OF p] g thn_Inl at_simps)
  have "files w6 ''babel.config.js'' = Some r"
    "files w6 ''jest.config.js'' = files w ''jest.config.js''"
    "files w6 ''package.json'' = files w ''package.json''"
    by (simp_all add: f6 f5 ps(2) paths)
  with m show ?thesis by simp
qed

section \<open>Facts about the example runs\<close>

lemmas demo_envs = answering_env_def scripted_env_def babel_failing_env_def
  jest_failing_env_def disk_full_env_def quota_env_def

lemma demo_key: "key_ok answering_env" "key_ok scripted_env" "key_ok babel_failing_env"
  "key_ok jest_failing_env" "key_ok disk_full_env" "key_ok quota_env"
  by (simp_all add: key_ok_def demo_envs)

lemma dirnames: "dirname html_path = ''generated''" "dirname js_path = ''generated''"
  "dirname css_path = ''generated''" "dirname test_path = ''generated/tests''"
  by code_simp+

lemma makedirs_free: "refuse E = Map.empty \<Longrightarrow> d \<noteq> [] \<Longrightarrow> makedirs E d = Inr ()"
  by (simp add: makedirs_def)

lemma demo_refuse: "refuse answering_env = Map.empty" "refuse scripted_env = Map.empty"
  "refuse babel_failing_env = Map.empty" "refuse jest_failing_env = Map.empty"
  "refuse disk_full_env = Map.empty" "refuse quota_env = Map.empty"
  by (simp_all add: demo_envs)

lemma demo_torn: "torn answering_env p text = None" "torn scripted_env p text = None"
  "torn babel_failing_env p text = None" "torn jest_failing_env p text = None"
  by (simp_all add: demo_envs)

lemma can_write_free:
  assumes "refuse E = Map.empty" and "\<And>p text. torn E p text = None"
  shows "can_write E html_path" "can_write E js_path" "can_write E css_path"
    "can_write E test_path"
  using assms by (simp_all add: can_write_def dirnames makedirs_free)

lemma dirs_free:
  assumes "refuse E = Map.empty"
  shows "makedirs E OUTPUT_DIR = Inr ()" "makedirs E (joinpath OUTPUT_DIR ''tests'') = Inr ()"
  using assms by (simp_all add: makedirs_free OUTPUT_DIR_def joinpath_def)

lemma demo_prompts:
  "files demo_world ui_prompt_path = Some ''Build a calculator page. ''"
  "files demo_world logic_prompt_path = Some ''Add, subtract, multiply, divide.''"
  "files demo_world style_prompt_path = Some ''Dark theme.''"
  "files demo_world test_prompt_path = Some ''Test every operator.''"
  by (simp_all add: demo_world_def paths)

lemma demo_world_fields: "calls demo_world = []" "stdout demo_world = []" "stderr demo_world = []"
  by (simp_all add: demo_world_def)

lemma demo_world_outputs:
  "files demo_world html_path = None" "files demo_world js_path = None"
  "files demo_world css_path = None" "files demo_world test_path = None"
  "files demo_world ''babel.config.js'' = None" "files demo_world ''jest.config.js'' = None"
  "files demo_world ''package.json'' = None"
  by (simp_all add: demo_world_def paths)

lemma reply_simps: "reply 0 = ''```html\<newline><main>0</main>\<newline>```''" "reply 1 = ''let total = 0;''"
  "reply 2 = ''main { color: red }''" "reply 3 = ''test(total)''"
  "reply 4 = ''module.exports = {};''" "reply 5 = ''export default {};''" "reply 6 = ''{}''"
  "reply (Suc 0) = ''let total = 0;''" "reply (Suc (Suc 0)) = ''main { color: red }''"
  "reply (Suc (Suc (Suc 0))) = ''test(total)''"
  by (simp_all add: reply_def replies_def)

lemma artifacts:
  "extract_code ''```html\<newline><main>0</main>\<newline>```'' = ''<main>0</main>''"
  "extract_code ''let total = 0;'' = ''let total = 0;''"
  "extract_code ''main { color: red }'' = ''main { color: red }''"
  "extract_code ''test(total)'' = ''test(total)''"
  by code_simp+

lemma stripped_prompts:
  "strip ''Build a calculator page. '' = ''Build a calculator page.''"
  "strip ''Add, subtract, multiply, divide.'' = ''Add, subtract, multiply, divide.''"
  "strip ''Dark theme.'' = ''Dark theme.''"
  "strip ''Test every operator.'' = ''Test every operator.''"
  by code_simp+

lemma answering_run: "fst (main answering_env a demo_world) = 0"
  by (rule main_runs [OF demo_key(1) _ dirs_free [OF demo_refuse(1)] demo_prompts
        can_write_free [OF demo_refuse(1) demo_torn(1)]])
     (simp_all add: answering_env_def)

lemma scripted_run: "fst (main scripted_env a demo_world) = 0"
  by (rule main_runs [OF demo_key(2) _ dirs_free [OF demo_refuse(2)] demo_prompts
        can_write_free [OF demo_refuse(2) demo_torn(2)]])
     (simp_all add: demo_envs)

lemma babel_failing_run:
  "fst (main_try babel_failing_env demo_world) = Inl (Auxiliary, unavailable)
   \<and> (\<forall>c \<in> set config_files.
         files (snd (main_try babel_failing_env demo_world)) (fst c) = files demo_world (fst c))
   \<and> length (calls (snd (main_try babel_failing_env demo_world)))
       = length (calls demo_world) + 5"
  by (rule main_try_auxiliary_fails [OF demo_key(3) _ _ demo_prompts
        can_write_free [OF demo_refuse(3) demo_torn(3)]])
     (simp_all add: demo_envs demo_world_fields)

lemma jest_failing_run:
  "fst (main_try jest_failing_env demo_world) = Inl (Auxiliary, unavailable)
   \<and> files (snd (main_try jest_failing_env demo_world)) ''babel.config.js''
       = Some ''module.exports = {};''
   \<and> files (snd (main_try jest_failing_env demo_world)) ''jest.config.js''
       = files demo_world ''jest.config.js''
   \<and> files (snd (main_try jest_failing_env demo_world)) ''package.json''
       = files demo_world ''package.json''"
  by (rule main_try_second_auxiliary_fails [OF demo_key(4) _ _ _ demo_prompts
        can_write_free [OF demo_refuse(4) demo_torn(4)]])
     (simp_all add: demo_envs demo_world_fields reply_simps)



section \<open>Properties of the pipeline\<close>




text \<open>
  Claim C1, as stated, fails. With the scripted model unavailable at the fifth request only,
  the one for \<^verbatim>\<open>babel.config.js\<close>, the four primary stages succeed and the run stops at
  that request: five requests are sent, neither \<^verbatim>\<open>jest.config.js\<close> nor \<^verbatim>\<open>package.json\<close> is
  generated although the model would have answered a sixth request, the process exits with
  code 1 and the line announcing success is never printed.
\<close>

theorem auxiliary_failure_counterexample:
  "fst (main babel_failing_env cli_args demo_world) = 1
   \<and> length (calls (snd (main babel_failing_env cli_args demo_world))) = 5
   \<and> post babel_failing_env (calls (snd (main babel_failing_env cli_args demo_world)))
         (last (calls (snd (main babel_failing_env cli_args demo_world))))
       = Inr ''export default {};''
   \<and> files (snd (main babel_failing_env cli_args demo_world)) ''jest.config.js'' = None
   \<and> files (snd (main babel_failing_env cli_args demo_world)) ''package.json'' = None
   \<and> success_line \<notin> set (stdout (snd (main babel_failing_env cli_args demo_world)))"
proof -
  let ?E = babel_failing_env
  note d = dirs_free [OF demo_refuse(3)]
  obtain w5 where m: "main_try ?E demo_world = (Inl (Auxiliary, unavailable), w5)"
    using babel_failing_run by (metis prod.collapse)
  have f: "\<forall>c \<in> set config_files. files w5 (fst c) = files demo_world (fst c)"
    and l: "length (calls w5) = 5"
    using babel_failing_run by (simp_all add: m demo_world_fields)
  have r: "main ?E cli_args demo_world
      = (1, print (''\<newline>Error during code generation: '' @ error_str unavailable) w5)"
    by (simp add: main_reaches_try [OF d] m)
  from m obtain arts w4 where p: "primary_stages ?E demo_world = (Inr arts, w4)"
    and g: "generate_config_files ?E w4 = (Inl unavailable, w5)"
    by (cases rule: main_try_cases) auto
  from g have "config_loop ?E config_files w4 = (Inl unavailable, w5)"
    by (simp add: generate_config_files_def)
  from primary_stages_quiet [OF p] config_loop_quiet [OF this] have "quiet demo_world w5"
    by (rule quiet_trans)
  then have q: "success_line \<notin> set (stdout w5)"
    by (auto simp: quiet_def demo_world_fields)
  have n: "files w5 ''jest.config.js'' = None" "files w5 ''package.json'' = None"
    using f by (simp_all add: config_files_def demo_world_outputs)
  have a: "post ?E (calls w5) (last (calls w5)) = Inr ''export default {};''"
    by (simp add: babel_failing_env_def l reply_simps)
  from q n l a show ?thesis by (simp add: r success_line_def unavailable_def)
qed

text \<open>
  Claim C1, as amended. In every run that reaches the \<^verbatim>\<open>try\<close> block and in which the
  generation of an auxiliary file fails with \<open>e\<close>, the run stops at that file. The four
  primary artifacts remain persisted, each file holding the extracted answer to its
  stage's request. The auxiliary files are requested in the order \<^verbatim>\<open>babel.config.js\<close>,
  \<^verbatim>\<open>jest.config.js\<close>, \<^verbatim>\<open>package.json\<close>, one request each, and the last request sent is the
  one for the failing file. Every file before the failing one holds the answer to its
  request, as the model gave it. The failing file is left as it was when its request fails
  or when it cannot be opened; when it is the write that fails, it holds what reached it
  before the failure, a prefix (possibly empty) of the answer. The files after the failing
  one are not requested and are left as they were. The failure is reported as any failure
  of the run is, by the line \<^verbatim>\<open>Error during code generation:\<close> and the cause on standard
  output; the line announcing success is not printed, nothing is written to standard error
  and the exit code is 1.
\<close>

theorem auxiliary_failure_stops_run:
  assumes "makedirs E OUTPUT_DIR = Inr ()"
    and "makedirs E (joinpath OUTPUT_DIR ''tests'') = Inr ()"
    and "fst (main_try E w) = Inl (Auxiliary, e)"
  shows "fst (main E a w) = 1
    \<and> (\<exists>q1 q2 q3 q4 r1 r2 r3 r4 written c rest qs q.
          config_files = written @ c # rest
        \<and> calls (snd (main E a w)) = calls w @ [q1, q2, q3, q4] @ qs @ [q]
        \<and> post E (calls w) q1 = Inr r1 \<and> post E (calls w @ [q1]) q2 = Inr r2
        \<and> post E (calls w @ [q1, q2]) q3 = Inr r3
        \<and> post E (calls w @ [q1, q2, q3]) q4 = Inr r4
        \<and> files (snd (main E a w)) html_path = Some (extract_code r1)
        \<and> files (snd (main E a w)) js_path = Some (extract_code r2)
        \<and> files (snd (main E a w)) css_path = Some (extract_code r3)
        \<and> files (snd (main E a w)) test_path = Some (extract_code r4)
        \<and> map req_user (qs @ [q]) = map snd (written @ [c])
        \<and> (\<forall>i < length written.
              \<exists>r. post E (calls w @ [q1, q2, q3, q4] @ take i qs) (qs ! i) = Inr r
                \<and> files (snd (main E a w)) (fst (written ! i)) = Some r)
        \<and> (post E (calls w @ [q1, q2, q3, q4] @ qs) q = Inl e
              \<and> files (snd (main E a w)) (fst c) = files w (fst c)
           \<or> (\<exists>r m. post E (calls w @ [q1, q2, q3, q4] @ qs) q = Inr r
                \<and> refuse E (fst c) = Some m \<and> e = OSError m
                \<and> files (snd (main E a w)) (fst c) = files w (fst c))
           \<or> (\<exists>r n m. post E (calls w @ [q1, q2, q3, q4] @ qs) q = Inr r
                \<and> refuse E (fst c) = None \<and> torn E (fst c) r = Some (n, m)
                \<and> e = WriteError m
                \<and> files (snd (main E a w)) (fst c) = Some (take n r)))
        \<and> (\<forall>x \<in> set rest. files (snd (main E a w)) (fst x) = files w (fst x)))
    \<and> (\<exists>ls. stdout (snd (main E a w))
            = stdout w @ ls @ [''\<newline>Error during code generation: '' @ error_str e]
          \<and> success_line \<notin> set ls)
    \<and> stderr (snd (main E a w)) = stderr w"
  using assms by (rule main_auxiliary_failure)

theorem auxiliary_failure_stops_run_witness:
  "makedirs jest_failing_env OUTPUT_DIR = Inr ()
   \<and> makedirs jest_failing_env (joinpath OUTPUT_DIR ''tests'') = Inr ()
   \<and> fst (main_try jest_failing_env demo_world) = Inl (Auxiliary, unavailable)
   \<and> fst (main jest_failing_env cli_args demo_world) = 1
   \<and> files (snd (main jest_failing_env cli_args demo_world)) ''babel.config.js''
       = Some ''module.exports = {};''
   \<and> files (snd (main jest_failing_env cli_args demo_world)) ''jest.config.js'' = None
   \<and> files (snd (main jest_failing_env cli_args demo_world)) ''package.json'' = None
   \<and> (\<exists>q1 q2 q3 q4 r1 r2 r3 r4 written c rest qs q.
          config_files = written @ c # rest
        \<and> calls (snd (main jest_failing_env cli_args demo_world))
            = calls demo_world @ [q1, q2, q3, q4] @ qs @ [q]
        \<and> post jest_failing_env (calls demo_world) q1 = Inr r1
        \<and> post jest_failing_env (calls demo_world @ [q1]) q2 = Inr r2
        \<and> post jest_failing_env (calls demo_world @ [q1, q2]) q3 = Inr r3
        \<and> post jest_failing_env (calls demo_world @ [q1, q2, q3]) q4 = Inr r4
        \<and> files (snd (main jest_failing_env cli_args demo_world)) html_path
            = Some (extract_code r1)
        \<and> files (snd (main jest_failing_env cli_args demo_world)) js_path
            = Some (extract_code r2)
        \<and> files (snd (main jest_failing_env cli_args demo_world)) css_path
            = Some (extract_code r3)
        \<and> files (snd (main jest_failing_env cli_args demo_world)) test_path
            = Some (extract_code r4)
        \<and> map req_user (qs @ [q]) = map snd (written @ [c])
        \<and> (\<forall>i < length written.
              \<exists>r. post jest_failing_env (calls demo_world @ [q1, q2, q3, q4] @ take i qs)
                    (qs ! i) = Inr r
                \<and> files (snd (main jest_failing_env cli_args demo_world)) (fst (written ! i))
                    = Some r)
        \<and> (post jest_failing_env (calls demo_world @ [q1, q2, q3, q4] @ qs) q = Inl unavailable
              \<and> files (snd (main jest_failing_env cli_args demo_world)) (fst c)
                  = files demo_world (fst c)
           \<or> (\<exists>r m.
                  post jest_failing_env (calls demo_world @ [q1, q2, q3, q4] @ qs) q = Inr r
                \<and> refuse jest_failing_env (fst c) = Some m \<and> unavailable = OSError m
                \<and> files (snd (main jest_failing_env cli_args demo_world)) (fst c)
                    = files demo_world (fst c))
           \<or> (\<exists>r n m.
                  post jest_failing_env (calls demo_world @ [q1, q2, q3, q4] @ qs) q = Inr r
                \<and> refuse jest_failing_env (fst c) = None
                \<and> torn jest_failing_env (fst c) r = Some (n, m)
                \<and> unavailable = WriteError m
                \<and> files (snd (main jest_failing_env cli_args demo_world)) (fst c)
                    = Some (take n r)))
        \<and> (\<forall>x \<in> set rest.
              files (snd (main jest_failing_env cli_args demo_world)) (fst x)
                = files demo_world (fst x)))
   \<and> (\<exists>ls. stdout (snd (main jest_failing_env cli_args demo_world))
            = stdout demo_world @ ls
                @ [''\<newline>Error during code generation: '' @ error_str unavailable]
          \<and> success_line \<notin> set ls)
   \<and> stderr (snd (main jest_failing_env cli_args demo_world)) = stderr demo_world"
proof -
  note d = dirs_free [OF demo_refuse(4)]
  have f: "fst (main_try jest_failing_env demo_world) = Inl (Auxiliary, unavailable)"
    using jest_failing_run by (rule conjunct1)
  have b: "files (snd (main jest_failing_env cli_args demo_world)) ''babel.config.js''
       = Some ''module.exports = {};''"
    and j: "files (snd (main jest_failing_env cli_args demo_world)) ''jest.config.js'' = None"
    and p: "files (snd (main jest_failing_env cli_args demo_world)) ''package.json'' = None"
    using jest_failing_run by (simp_all add: main_world [OF d] demo_world_outputs)
  from d f b j p auxiliary_failure_stops_run [OF d f, of cli_args]
  show ?thesis by blast
qed

text \<open>
  Claim C2. In every successful run the four primary requests are sent in the order HTML,
  Script, Style, Tests. The user message of the HTML request is the HTML instruction and
  the trimmed prompt, and carries no artifact. The user message of each later request is
  the text of its generator with, in the fenced blocks and in creation order, the artifacts
  of the stages before it, each exactly as \<^verbatim>\<open>extract_code\<close> returned it from the answer of
  its stage, followed by the trimmed prompt: the Script request carries the HTML artifact,
  the Style request the HTML and Script artifacts, the Tests request the HTML, Script and
  Style artifacts. The files persisted at the end hold these same artifacts.
\<close>

theorem context_chain:
  assumes "fst (main E a w) = 0"
  shows "\<exists>t1 t2 t3 t4 r1 r2 r3 r4 q1 q2 q3 q4 qs.
      files w ui_prompt_path = Some t1 \<and> files w logic_prompt_path = Some t2
    \<and> files w style_prompt_path = Some t3 \<and> files w test_prompt_path = Some t4
    \<and> calls (snd (main E a w)) = calls w @ [q1, q2, q3, q4] @ qs
    \<and> post E (calls w) q1 = Inr r1 \<and> post E (calls w @ [q1]) q2 = Inr r2
    \<and> post E (calls w @ [q1, q2]) q3 = Inr r3 \<and> post E (calls w @ [q1, q2, q3]) q4
        = Inr r4
    \<and> req_user q1
       
            = ''Generate only the HTML code for a calculator. Respond with ONLY the complete HTML file, no explanations or markdown.''
          @ ''\<newline>\<newline>''
          @ strip t1
    \<and> req_user q2
       
            = ''\<newline>I'll provide you with the HTML structure of a calculator application followed by requirements\<newline>''
          @ ''for implementing its JavaScript business logic. Make sure your JavaScript code properly \<newline>''
          @ ''interacts with the HTML elements by using the correct IDs and classes.\<newline>''
          @ ''\<newline>''
          @ ''Here's the HTML structure:\<newline>''
          @ ''```html\<newline>''
          @ extract_code r1
          @ ''\<newline>```\<newline>''
          @ ''\<newline>''
          @ ''Now, here are the requirements for the JavaScript business logic:\<newline>''
          @ ''\<newline>''
          @ strip t2
    \<and> req_user q3
       
            = ''\<newline>I'll provide you with the HTML and JavaScript code for a calculator application followed by\<newline>''
          @ ''requirements for implementing its CSS styling. Make sure your CSS properly styles\<newline>''
          @ ''the HTML elements by using the correct IDs, classes, and elements.\<newline>''
          @ ''\<newline>''
          @ ''Here's the HTML structure:\<newline>''
          @ ''```html\<newline>''
          @ extract_code r1
          @ ''\<newline>```\<newline>''
          @ ''\<newline>''
          @ ''Here's the JavaScript code:\<newline>''
          @ ''```javascript\<newline>''
          @ extract_code r2
          @ ''\<newline>```\<newline>''
          @ ''\<newline>''
          @ ''Now, here are the requirements for the CSS styling:\<newline>''
          @ ''\<newline>''
          @ strip t3
    \<and> req_user q4
       
            = ''\<newline>I'll provide you with the complete implementation of a calculator application (HTML, JavaScript, and CSS)\<newline>''
          @ ''followed by requirements for implementing tests. Make sure your tests properly validate\<newline>''
          @ ''the calculator's functionality by checking all specified requirements.\<newline>''
          @ ''\<newline>''
          @ ''Here's the HTML structure:\<newline>''
          @ ''```html\<newline>''
          @ extract_code r1
          @ ''\<newline>```\<newline>''
          @ ''\<newline>''
          @ ''Here's the JavaScript code:\<newline>''
          @ ''```javascript\<newline>''
          @ extract_code r2
          @ ''\<newline>```\<newline>''
          @ ''\<newline>''
          @ ''Here's the CSS code:\<newline>''
          @ ''```css\<newline>''
          @ extract_code r3
          @ ''\<newline>```\<newline>''
          @ ''\<newline>''
          @ ''Now, here are the requirements for the tests:\<newline>''
          @ ''\<newline>''
          @ strip t4
    \<and> files (snd (main E a w)) html_path = Some (extract_code r1)
    \<and> files (snd (main E a w)) js_path = Some (extract_code r2)
    \<and> files (snd (main E a w)) css_path = Some (extract_code r3)
    \<and> files (snd (main E a w)) test_path = Some (extract_code r4)"
proof -
  from main_success [OF assms] obtain t1 t2 t3 t4 r1 r2 r3 r4 q1 q2 q3 q4 qs where
    f: "files w ui_prompt_path = Some t1" "files w logic_prompt_path = Some t2"
      "files w style_prompt_path = Some t3" "files w test_prompt_path = Some t4"
      "calls (snd (main E a w)) = calls w @ [q1, q2, q3, q4] @ qs"
      "post E (calls w) q1 = Inr r1" "post E (calls w @ [q1]) q2 = Inr r2"
      "post E (calls w @ [q1, q2]) q3 = Inr r3" "post E (calls w @ [q1, q2, q3]) q4 = Inr r4"
      "files (snd (main E a w)) html_path = Some (extract_code r1)"
      "files (snd (main E a w)) js_path = Some (extract_code r2)"
      "files (snd (main E a w)) css_path = Some (extract_code r3)"
      "files (snd (main E a w)) test_path = Some (extract_code r4)"
    and u: "req_user q1 = html_instruction @ ''\<newline>\<newline>'' @ strip t1"
      "req_user q2 = javascript_request_context (extract_code r1) @ ''\<newline>'' @ strip t2"
      "req_user q3 = css_request_context (extract_code r1) (extract_code r2)
          @ ''\<newline>'' @ strip t3"
      "req_user q4 = tests_request_context (extract_code r1) (extract_code r2) (extract_code r3)
          @ ''\<newline>'' @ strip t4"
    by blast
  have u1: "req_user q1
       
            = ''Generate only the HTML code for a calculator. Respond with ONLY the complete HTML file, no explanations or markdown.''
          @ ''\<newline>\<newline>''
          @ strip t1"
    unfolding u(1) html_instruction_def by (simp only: append_assoc)
  have u2: "req_user q2
       
            = ''\<newline>I'll provide you with the HTML structure of a calculator application followed by requirements\<newline>''
          @ ''for implementing its JavaScript business logic. Make sure your JavaScript code properly \<newline>''
          @ ''interacts with the HTML elements by using the correct IDs and classes.\<newline>''
          @ ''\<newline>''
          @ ''Here's the HTML structure:\<newline>''
          @ ''```html\<newline>''
          @ extract_code r1
          @ ''\<newline>```\<newline>''
          @ ''\<newline>''
          @ ''Now, here are the requirements for the JavaScript business logic:\<newline>''
          @ ''\<newline>''
          @ strip t2"
    unfolding u(2) javascript_request_context_def by (simp only: append_assoc)
  have u3: "req_user q3
       
            = ''\<newline>I'll provide you with the HTML and JavaScript code for a calculator application followed by\<newline>''
          @ ''requirements for implementing its CSS styling. Make sure your CSS properly styles\<newline>''
          @ ''the HTML elements by using the correct IDs, classes, and elements.\<newline>''
          @ ''\<newline>''
          @ ''Here's the HTML structure:\<newline>''
          @ ''```html\<newline>''
          @ extract_code r1
          @ ''\<newline>```\<newline>''
          @ ''\<newline>''
          @ ''Here's the JavaScript code:\<newline>''
          @ ''```javascript\<newline>''
          @ extract_code r2
          @ ''\<newline>```\<newline>''
          @ ''\<newline>''
          @ ''Now, here are the requirements for the CSS styling:\<newline>''
          @ ''\<newline>''
          @ strip t3"
    unfolding u(3) css_request_context_def by (simp only: append_assoc)
  have u4: "req_user q4
       
            = ''\<newline>I'll provide you with the complete implementation of a calculator application (HTML, JavaScript, and CSS)\<newline>''
          @ ''followed by requirements for implementing tests. Make sure your tests properly validate\<newline>''
          @ ''the calculator's functionality by checking all specified requirements.\<newline>''
          @ ''\<newline>''
          @ ''Here's the HTML structure:\<newline>''
          @ ''```html\<newline>''
          @ extract_code r1
          @ ''\<newline>```\<newline>''
          @ ''\<newline>''
          @ ''Here's the JavaScript code:\<newline>''
          @ ''```javascript\<newline>''
          @ extract_code r2
          @ ''\<newline>```\<newline>''
          @ ''\<newline>''
          @ ''Here's the CSS code:\<newline>''
          @ ''```css\<newline>''
          @ extract_code r3
          @ ''\<newline>```\<newline>''
          @ ''\<newline>''
          @ ''Now, here are the requirements for the tests:\<newline>''
          @ ''\<newline>''
          @ strip t4"
    unfolding u(4) tests_request_context_def by (simp only: append_assoc)
  from f u1 u2 u3 u4 show ?thesis by blast
qed

theorem context_chain_witness:
  "fst (main scripted_env cli_args demo_world) = 0
   \<and> map req_user (take 4 (calls (snd (main scripted_env cli_args demo_world))))
       = [''Generate only the HTML code for a calculator. Respond with ONLY the complete HTML file, no explanations or markdown.''
          @ ''\<newline>\<newline>''
          @ ''Build a calculator page.'',
          ''\<newline>I'll provide you with the HTML structure of a calculator application followed by requirements\<newline>''
          @ ''for implementing its JavaScript business logic. Make sure your JavaScript code properly \<newline>''
          @ ''interacts with the HTML elements by using the correct IDs and classes.\<newline>''
          @ ''\<newline>''
          @ ''Here's the HTML structure:\<newline>''
          @ ''```html\<newline>''
          @ ''<main>0</main>''
          @ ''\<newline>```\<newline>''
          @ ''\<newline>''
          @ ''Now, here are the requirements for the JavaScript business logic:\<newline>''
          @ ''\<newline>''
          @ ''Add, subtract, multiply, divide.'',
          ''\<newline>I'll provide you with the HTML and JavaScript code for a calculator application followed by\<newline>''
          @ ''requirements for implementing its CSS styling. Make sure your CSS properly styles\<newline>''
          @ ''the HTML elements by using the correct IDs, classes, and elements.\<newline>''
          @ ''\<newline>''
          @ ''Here's the HTML structure:\<newline>''
          @ ''```html\<newline>''
          @ ''<main>0</main>''
          @ ''\<newline>```\<newline>''
          @ ''\<newline>''
          @ ''Here's the JavaScript code:\<newline>''
          @ ''```javascript\<newline>''
          @ ''let total = 0;''
          @ ''\<newline>```\<newline>''
          @ ''\<newline>''
          @ ''Now, here are the requirements for the CSS styling:\<newline>''
          @ ''\<newline>''
          @ ''Dark theme.'',
          ''\<newline>I'll provide you with the complete implementation of a calculator application (HTML, JavaScript, and CSS)\<newline>''
          @ ''followed by requirements for implementing tests. Make sure your tests properly validate\<newline>''
          @ ''the calculator's functionality by checking all specified requirements.\<newline>''
          @ ''\<newline>''
          @ ''Here's the HTML structure:\<newline>''
          @ ''```html\<newline>''
          @ ''<main>0</main>''
          @ ''\<newline>```\<newline>''
          @ ''\<newline>''
          @ ''Here's the JavaScript code:\<newline>''
          @ ''```javascript\<newline>''
          @ ''let total = 0;''
          @ ''\<newline>```\<newline>''
          @ ''\<newline>''
          @ ''Here's the CSS code:\<newline>''
          @ ''```css\<newline>''
          @ ''main { color: red }''
          @ ''\<newline>```\<newline>''
          @ ''\<newline>''
          @ ''Now, here are the requirements for the tests:\<newline>''
          @ ''\<newline>''
          @ ''Test every operator.'']
   \<and> files (snd (main scripted_env cli_args demo_world)) html_path = Some ''<main>0</main>''
   \<and> files (snd (main scripted_env cli_args demo_world)) js_path = Some ''let total = 0;''
   \<and> files (snd (main scripted_env cli_args demo_world)) css_path
       = Some ''main { color: red }''
   \<and> files (snd (main scripted_env cli_args demo_world)) test_path = Some ''test(total)''"
proof -
  from context_chain [OF scripted_run, of cli_args]
  obtain t1 t2 t3 t4 r1 r2 r3 r4 q1 q2 q3 q4 qs where
    t: "files demo_world ui_prompt_path = Some t1" "files demo_world logic_prompt_path = Some t2"
      "files demo_world style_prompt_path = Some t3" "files demo_world test_prompt_path = Some t4"
    and c: "calls (snd (main scripted_env cli_args demo_world))
        = calls demo_world @ [q1, q2, q3, q4] @ qs"
    and a: "post scripted_env (calls demo_world) q1 = Inr r1"
      "post scripted_env (calls demo_world @ [q1]) q2 = Inr r2"
      "post scripted_env (calls demo_world @ [q1, q2]) q3 = Inr r3"
      "post scripted_env (calls demo_world @ [q1, q2, q3]) q4 = Inr r4"
    and u1: "req_user q1
       
            = ''Generate only the HTML code for a calculator. Respond with ONLY the complete HTML file, no explanations or markdown.''
          @ ''\<newline>\<newline>''
          @ strip t1"
    and u2: "req_user q2
       
            = ''\<newline>I'll provide you with the HTML structure of a calculator application followed by requirements\<newline>''
          @ ''for implementing its JavaScript business logic. Make sure your JavaScript code properly \<newline>''
          @ ''interacts with the HTML elements by using the correct IDs and classes.\<newline>''
          @ ''\<newline>''
          @ ''Here's the HTML structure:\<newline>''
          @ ''```html\<newline>''
          @ extract_code r1
          @ ''\<newline>```\<newline>''
          @ ''\<newline>''
          @ ''Now, here are the requirements for the JavaScript business logic:\<newline>''
          @ ''\<newline>''
          @ strip t2"
    and u3: "req_user q3
       
            = ''\<newline>I'll provide you with the HTML and JavaScript code for a calculator application followed by\<newline>''
          @ ''requirements for implementing its CSS styling. Make sure your CSS properly styles\<newline>''
          @ ''the HTML elements by using the correct IDs, classes, and elements.\<newline>''
          @ ''\<newline>''
          @ ''Here's the HTML structure:\<newline>''
          @ ''```html\<newline>''
          @ extract_code r1
          @ ''\<newline>```\<newline>''
          @ ''\<newline>''
          @ ''Here's the JavaScript code:\<newline>''
          @ ''```javascript\<newline>''
          @ extract_code r2
          @ ''\<newline>```\<newline>''
          @ ''\<newline>''
          @ ''Now, here are the requirements for the CSS styling:\<newline>''
          @ ''\<newline>''
          @ strip t3"
    and u4: "req_user q4
       
            = ''\<newline>I'll provide you with the complete implementation of a calculator application (HTML, JavaScript, and CSS)\<newline>''
          @ ''followed by requirements for implementing tests. Make sure your tests properly validate\<newline>''
          @ ''the calculator's functionality by checking all specified requirements.\<newline>''
          @ ''\<newline>''
          @ ''Here's the HTML structure:\<newline>''
          @ ''```html\<newline>''
          @ extract_code r1
          @ ''\<newline>```\<newline>''
          @ ''\<newline>''
          @ ''Here's the JavaScript code:\<newline>''
          @ ''```javascript\<newline>''
          @ extract_code r2
          @ ''\<newline>```\<newline>''
          @ ''\<newline>''
          @ ''Here's the CSS code:\<newline>''
          @ ''```css\<newline>''
          @ extract_code r3
          @ ''\<newline>```\<newline>''
          @ ''\<newline>''
          @ ''Now, here are the requirements for the tests:\<newline>''
          @ ''\<newline>''
          @ strip t4"
    and f: "files (snd (main scripted_env cli_args demo_world)) html_path = Some (extract_code r1)"
      "files (snd (main scripted_env cli_args demo_world)) js_path = Some (extract_code r2)"
      "files (snd (main scripted_env cli_args demo_world)) css_path = Some (extract_code r3)"
      "files (snd (main scripted_env cli_args demo_world)) test_path = Some (extract_code r4)"
    by blast
  from t have tv: "t1 = ''Build a calculator page. ''" "t2 = ''Add, subtract, multiply, divide.''"
    "t3 = ''Dark theme.''" "t4 = ''Test every operator.''"
    by (simp_all add: demo_prompts)
  have ts: "strip t1 = ''Build a calculator page.''"
    "strip t2 = ''Add, subtract, multiply, divide.''" "strip t3 = ''Dark theme.''"
    "strip t4 = ''Test every operator.''"
    unfolding tv by (rule stripped_prompts)+
  from a have "r1 = reply 0" "r2 = reply (Suc 0)" "r3 = reply (Suc (Suc 0))"
    "r4 = reply (Suc (Suc (Suc 0)))"
    by (auto simp: scripted_env_def answering_env_def demo_world_fields)
  then have rs: "extract_code r1 = ''<main>0</main>''" "extract_code r2 = ''let total = 0;''"
    "extract_code r3 = ''main { color: red }''" "extract_code r4 = ''test(total)''"
    by (simp_all only: reply_simps artifacts)
  have "take 4 (calls (snd (main scripted_env cli_args demo_world)))
      = [q1, q2, q3, q4]" by (simp add: c demo_world_fields)
  then have m: "map req_user (take 4 (calls (snd (main scripted_env cli_args demo_world))))
       = [''Generate only the HTML code for a calculator. Respond with ONLY the complete HTML file, no explanations or markdown.''
          @ ''\<newline>\<newline>''
          @ ''Build a calculator page.'',
          ''\<newline>I'll provide you with the HTML structure of a calculator application followed by requirements\<newline>''
          @ ''for implementing its JavaScript business logic. Make sure your JavaScript code properly \<newline>''
          @ ''interacts with the HTML elements by using the correct IDs and classes.\<newline>''
          @ ''\<newline>''
          @ ''Here's the HTML structure:\<newline>''
          @ ''```html\<newline>''
          @ ''<main>0</main>''
          @ ''\<newline>```\<newline>''
          @ ''\<newline>''
          @ ''Now, here are the requirements for the JavaScript business logic:\<newline>''
          @ ''\<newline>''
          @ ''Add, subtract, multiply, divide.'',
          ''\<newline>I'll provide you with the HTML and JavaScript code for a calculator application followed by\<newline>''
          @ ''requirements for implementing its CSS styling. Make sure your CSS properly styles\<newline>''
          @ ''the HTML elements by using the correct IDs, classes, and elements.\<newline>''
          @ ''\<newline>''
          @ ''Here's the HTML structure:\<newline>''
          @ ''```html\<newline>''
          @ ''<main>0</main>''
          @ ''\<newline>```\<newline>''
          @ ''\<newline>''
          @ ''Here's the JavaScript code:\<newline>''
          @ ''```javascript\<newline>''
          @ ''let total = 0;''
          @ ''\<newline>```\<newline>''
          @ ''\<newline>''
          @ ''Now, here are the requirements for the CSS styling:\<newline>''
          @ ''\<newline>''
          @ ''Dark theme.'',
          ''\<newline>I'll provide you with the complete implementation of a calculator application (HTML, JavaScript, and CSS)\<newline>''
          @ ''followed by requirements for implementing tests. Make sure your tests properly validate\<newline>''
          @ ''the calculator's functionality by checking all specified requirements.\<newline>''
          @ ''\<newline>''
          @ ''Here's the HTML structure:\<newline>''
          @ ''```html\<newline>''
          @ ''<main>0</main>''
          @ ''\<newline>```\<newline>''
          @ ''\<newline>''
          @ ''Here's the JavaScript code:\<newline>''
          @ ''```javascript\<newline>''
          @ ''let total = 0;''
          @ ''\<newline>```\<newline>''
          @ ''\<newline>''
          @ ''Here's the CSS code:\<newline>''
          @ ''```css\<newline>''
          @ ''main { color: red }''
          @ ''\<newline>```\<newline>''
          @ ''\<newline>''
          @ ''Now, here are the requirements for the tests:\<newline>''
          @ ''\<newline>''
          @ ''Test every operator.'']"
    unfolding u1 u2 u3 u4 ts rs by (simp only: list.map u1 u2 u3 u4 ts rs)
  from scripted_run [of cli_args] m f [unfolded rs] show ?thesis by blast
qed

lemma answering_defaults:
  "DEFAULT_MODEL answering_env = ''gpt-4-turbo''"
  "DEFAULT_API_ENDPOINT answering_env = ''https://api.openai.com/v1/chat/completions''"
  "the (environ answering_env ''LLM_API_KEY'') = ''sk-env''"
  by (simp_all add: DEFAULT_MODEL_def DEFAULT_API_ENDPOINT_def answering_env_def)

text \<open>
  Claim C4 does not hold of the code: \<^verbatim>\<open>main\<close> parses \<^verbatim>\<open>--model\<close>, \<^verbatim>\<open>--api-key\<close> and
  \<^verbatim>\<open>--endpoint\<close> and never passes them on. In a run given all three, each of the seven
  requests carries the model, the key and the endpoint of the environment.
\<close>

theorem cli_arguments_unused:
  "arg_model cli_args = Some ''gpt-4o''
   \<and> arg_api_key cli_args = Some ''sk-cli''
   \<and> arg_endpoint cli_args = Some ''https://llm.example/v1''
   \<and> map req_model (calls (snd (main answering_env cli_args demo_world)))
       = replicate 7 ''gpt-4-turbo''
   \<and> map req_authorization (calls (snd (main answering_env cli_args demo_world)))
       = replicate 7 ''Bearer sk-env''
   \<and> map req_url (calls (snd (main answering_env cli_args demo_world)))
       = replicate 7 ''https://api.openai.com/v1/chat/completions''"
proof -
  let ?cs = "calls (snd (main answering_env cli_args demo_world))"
  from main_success [OF answering_run, of cli_args] obtain q1 q2 q3 q4 qs where
    c: "?cs = calls demo_world @ [q1, q2, q3, q4] @ qs" and l: "length qs = 3"
    and d: "default_request answering_env q1" "default_request answering_env q2"
      "default_request answering_env q3" "default_request answering_env q4"
      "\<forall>q \<in> set qs. default_request answering_env q"
    by blast
  have len: "length ?cs = 7" by (simp add: c l demo_world_fields)
  have all: "\<forall>q \<in> set ?cs. default_request answering_env q"
    using d by (auto simp: c demo_world_fields)
  have "map req_model ?cs = replicate (length ?cs) ''gpt-4-turbo''"
    using all by (intro map_constant) (simp add: default_request_def answering_defaults)
  moreover have "map req_authorization ?cs = replicate (length ?cs) ''Bearer sk-env''"
    using all by (intro map_constant) (simp add: default_request_def answering_defaults)
  moreover have "map req_url ?cs
      = replicate (length ?cs) ''https://api.openai.com/v1/chat/completions''"
    using all by (intro map_constant) (simp add: default_request_def answering_defaults)
  moreover have "arg_model cli_args = Some ''gpt-4o''" "arg_api_key cli_args = Some ''sk-cli''"
    "arg_endpoint cli_args = Some ''https://llm.example/v1''"
    by (simp_all add: cli_args_def)
  ultimately show ?thesis by (simp add: len)
qed

text \<open>
  Claim C8 does not hold of the HTML stage: \<^verbatim>\<open>generate_html\<close> puts its instruction at the
  head of the user message and calls the model with the default system message, while the
  Script, Style and Tests stages send theirs as the system message.
\<close>

theorem html_stage_system_message:
  "map req_system (take 4 (calls (snd (main answering_env cli_args demo_world))))
     = [''You are a code generator for a calculator application.'',
        javascript_instruction, css_instruction, tests_instruction]
   \<and> req_user (hd (calls (snd (main answering_env cli_args demo_world))))
     = html_instruction @ ''\<newline>\<newline>'' @ ''Build a calculator page.''"
proof -
  let ?cs = "calls (snd (main answering_env cli_args demo_world))"
  have s: "strip ''Build a calculator page. '' = ''Build a calculator page.''" by code_simp
  from main_success [OF answering_run, of cli_args] obtain t1 q1 q2 q3 q4 qs where
    c: "?cs = calls demo_world @ [q1, q2, q3, q4] @ qs"
    and t: "files demo_world ui_prompt_path = Some t1"
    and u: "req_user q1 = html_instruction @ ''\<newline>\<newline>'' @ strip t1"
    and m: "req_system q1 = default_system_message" "req_system q2 = javascript_instruction"
      "req_system q3 = css_instruction" "req_system q4 = tests_instruction"
    by blast
  from t have "t1 = ''Build a calculator page. ''" by (simp add: demo_prompts)
  with u s have "req_user q1
      = html_instruction @ ''\<newline>\<newline>'' @ ''Build a calculator page.''"
    by simp
  then show ?thesis
    by (simp add: c m demo_world_fields default_system_message_def)
qed

text \<open>
  Claim C9. \<^verbatim>\<open>read_prompt_file\<close> returns the trimmed content of a prompt file that exists
  and fails with \<^verbatim>\<open>FileNotFoundError\<close> when it is absent; a run in which one of the four
  prompt files is absent exits with code 1, whatever the rest of the surroundings.
\<close>

theorem prompt_load:
  "(files w p = Some text \<longrightarrow> read_prompt_file p w = Inr (strip text))
   \<and> (files w p = None \<longrightarrow> read_prompt_file p w = Inl (FileNotFoundError p))
   \<and> (p \<in> {ui_prompt_path, logic_prompt_path, style_prompt_path, test_prompt_path}
        \<and> files w p = None \<longrightarrow> fst (main E a w) = 1)"
proof (intro conjI impI)
  assume "files w p = Some text"
  then show "read_prompt_file p w = Inr (strip text)" by (simp add: read_prompt_file_def)
next
  assume "files w p = None"
  then show "read_prompt_file p w = Inl (FileNotFoundError p)"
    by (simp add: read_prompt_file_def)
next
  assume a: "p \<in> {ui_prompt_path, logic_prompt_path, style_prompt_path, test_prompt_path}
    \<and> files w p = None"
  have "fst (main E a w) \<noteq> 0"
  proof
    assume "fst (main E a w) = 0"
    from main_success [OF this] have "files w ui_prompt_path \<noteq> None"
      "files w logic_prompt_path \<noteq> None" "files w style_prompt_path \<noteq> None"
      "files w test_prompt_path \<noteq> None" by auto
    with a show False by auto
  qed
  with main_exit [of E a w] show "fst (main E a w) = 1" by simp
qed

theorem prompt_load_witness:
  "files demo_world ui_prompt_path = Some ''Build a calculator page. ''
   \<and> read_prompt_file ui_prompt_path demo_world = Inr ''Build a calculator page.''
   \<and> test_prompt_path \<in> {ui_prompt_path, logic_prompt_path, style_prompt_path, test_prompt_path}
   \<and> files incomplete_world test_prompt_path = None
   \<and> read_prompt_file test_prompt_path incomplete_world
       = Inl (FileNotFoundError test_prompt_path)
   \<and> fst (main answering_env cli_args incomplete_world) = 1"
proof -
  have s: "strip ''Build a calculator page. '' = ''Build a calculator page.''" by code_simp
  have n: "files incomplete_world test_prompt_path = None"
    by (simp add: incomplete_world_def)
  have i: "test_prompt_path \<in> {ui_prompt_path, logic_prompt_path, style_prompt_path, test_prompt_path}"
    by simp
  from prompt_load [of demo_world ui_prompt_path "''Build a calculator page. ''"]
  have 1: "read_prompt_file ui_prompt_path demo_world = Inr ''Build a calculator page.''"
    by (simp only: demo_prompts s simp_thms)
  from prompt_load [of incomplete_world test_prompt_path _ answering_env cli_args] n i
  have 2: "read_prompt_file test_prompt_path incomplete_world
       = Inl (FileNotFoundError test_prompt_path)"
    and 3: "fst (main answering_env cli_args incomplete_world) = 1"
    by blast+
  from demo_prompts(1) 1 i n 2 3 show ?thesis by blast
qed

end
